theory Spec2Isabelle
  imports Complex_Main "HOL-Library.Multiset"
begin

section \<open>moments.py: robust scatter estimate and covariance-weighted means\<close>

text \<open>
  The embedding reads float64 as \<open>real\<close>: every arithmetic operation of the source is
  the exact operation on real numbers, so rounding is outside the model. The values
  that float64 has beyond the reals (the two infinities and NaN) are kept where the
  source can produce them from real inputs (\<open>npfloat\<close>); signed zeros are not
  distinguished. A 1-D array is a list; a 2-D array carries its shape and its rows.
  An exception is a value of \<open>error\<close> on the left of a sum.
\<close>

subsection \<open>Errors and the error-propagating sequencing of statements\<close>

datatype error = IndexError | ValueError | LinAlgError

definition bind :: "error + 'a \<Rightarrow> ('a \<Rightarrow> error + 'b) \<Rightarrow> error + 'b" where
  "bind m f = (case m of Inl e \<Rightarrow> Inl e | Inr v \<Rightarrow> f v)"

text \<open>A \<open>for\<close> loop over the values of a range; an exception in the body leaves the loop.\<close>

fun for_loop :: "(nat \<Rightarrow> 's \<Rightarrow> error + 's) \<Rightarrow> nat list \<Rightarrow> 's \<Rightarrow> error + 's" where
  "for_loop body [] s = Inr s"
| "for_loop body (j # js) s = bind (body j s) (for_loop body js)"

text \<open>\<open>range(0, stop, 2)\<close>: the even numbers below \<open>stop\<close>.\<close>

definition range_step2 :: "nat \<Rightarrow> nat list" where
  "range_step2 stop = map (\<lambda>i. 2 * i) [0..<(stop + 1) div 2]"

subsection \<open>float64 values beyond the reals\<close>

datatype npfloat = Num real | PInf | NInf | NaN

fun np_neg :: "npfloat \<Rightarrow> npfloat" where
  "np_neg (Num a) = Num (- a)"
| "np_neg PInf = NInf"
| "np_neg NInf = PInf"
| "np_neg NaN = NaN"

fun np_add :: "npfloat \<Rightarrow> npfloat \<Rightarrow> npfloat" where
  "np_add (Num a) (Num b) = Num (a + b)"
| "np_add NaN _ = NaN"
| "np_add _ NaN = NaN"
| "np_add PInf NInf = NaN"
| "np_add NInf PInf = NaN"
| "np_add PInf _ = PInf"
| "np_add _ PInf = PInf"
| "np_add NInf _ = NInf"
| "np_add _ NInf = NInf"

definition np_sub :: "npfloat \<Rightarrow> npfloat \<Rightarrow> npfloat" where
  "np_sub a b = np_add a (np_neg b)"

text \<open>The sign of an infinity times or over a nonzero finite number or an infinity.\<close>

definition signed_inf :: "bool \<Rightarrow> npfloat" where
  "signed_inf positive = (if positive then PInf else NInf)"

fun np_mul :: "npfloat \<Rightarrow> npfloat \<Rightarrow> npfloat" where
  "np_mul (Num a) (Num b) = Num (a * b)"
| "np_mul NaN _ = NaN"
| "np_mul _ NaN = NaN"
| "np_mul PInf (Num b) = (if b = 0 then NaN else signed_inf (0 < b))"
| "np_mul NInf (Num b) = (if b = 0 then NaN else signed_inf (b < 0))"
| "np_mul (Num a) PInf = (if a = 0 then NaN else signed_inf (0 < a))"
| "np_mul (Num a) NInf = (if a = 0 then NaN else signed_inf (a < 0))"
| "np_mul PInf PInf = PInf"
| "np_mul NInf NInf = PInf"
| "np_mul PInf NInf = NInf"
| "np_mul NInf PInf = NInf"

text \<open>
  Division of float64 values raises nothing in numpy: a zero divisor gives an infinity,
  or NaN for \<open>0/0\<close>.
\<close>

fun np_div :: "npfloat \<Rightarrow> npfloat \<Rightarrow> npfloat" where
  "np_div (Num a) (Num b) =
     (if b = 0 then (if a = 0 then NaN else signed_inf (0 < a)) else Num (a / b))"
| "np_div NaN _ = NaN"
| "np_div _ NaN = NaN"
| "np_div (Num a) _ = Num 0"
| "np_div PInf (Num b) = signed_inf (0 \<le> b)"
| "np_div NInf (Num b) = signed_inf (b < 0)"
| "np_div _ _ = NaN"

fun np_sqrt :: "npfloat \<Rightarrow> npfloat" where
  "np_sqrt (Num a) = (if a < 0 then NaN else Num (sqrt a))"
| "np_sqrt PInf = PInf"
| "np_sqrt NInf = NaN"
| "np_sqrt NaN = NaN"

text \<open>\<open>np.sum\<close> of a 1-D array; the sum of the empty array is \<open>0.0\<close>.\<close>

definition np_sum :: "npfloat list \<Rightarrow> npfloat" where
  "np_sum xs = foldl np_add (Num 0) xs"

subsection \<open>Arrays\<close>

datatype ndarray2 = Array2 (nrows: nat) (ncols: nat) (rows: "real list list")

definition zeros1 :: "nat \<Rightarrow> real list" where
  "zeros1 n = replicate n 0"

definition zeros2 :: "nat \<Rightarrow> nat \<Rightarrow> ndarray2" where
  "zeros2 m n = Array2 m n (replicate m (replicate n 0))"

text \<open>\<open>a[k]\<close> and \<open>a[k] = v\<close> on a 1-D array, for an index \<open>k \<ge> 0\<close>.\<close>

definition getitem :: "real list \<Rightarrow> nat \<Rightarrow> error + real" where
  "getitem a k = (if k < length a then Inr (a ! k) else Inl IndexError)"

definition setitem :: "real list \<Rightarrow> nat \<Rightarrow> real \<Rightarrow> error + real list" where
  "setitem a k v = (if k < length a then Inr (a[k := v]) else Inl IndexError)"

text \<open>
  \<open>A[i] = row\<close>, \<open>A[i, j]\<close> and \<open>A[i, j] = v\<close> on a 2-D array. The source assigns
  rows of two entries to an array of two columns only, so a row of another length is
  an error here (numpy would broadcast a row of length 1).
\<close>

definition setrow :: "ndarray2 \<Rightarrow> nat \<Rightarrow> real list \<Rightarrow> error + ndarray2" where
  "setrow A i r =
     (if \<not> i < nrows A then Inl IndexError
      else if length r \<noteq> ncols A then Inl ValueError
      else Inr (Array2 (nrows A) (ncols A) ((rows A)[i := r])))"

definition getitem2 :: "ndarray2 \<Rightarrow> nat \<Rightarrow> nat \<Rightarrow> error + real" where
  "getitem2 A i j =
     (if i < nrows A \<and> j < ncols A then Inr (rows A ! i ! j) else Inl IndexError)"

definition setitem2 :: "ndarray2 \<Rightarrow> nat \<Rightarrow> nat \<Rightarrow> real \<Rightarrow> error + ndarray2" where
  "setitem2 A i j v =
     (if i < nrows A \<and> j < ncols A
      then Inr (Array2 (nrows A) (ncols A) ((rows A)[i := (rows A ! i)[j := v]]))
      else Inl IndexError)"

text \<open>
  \<open>A[j : j + 2, j : j + 2] = B\<close>. A slice is clipped to the array, so the assignment
  fails (the shapes cannot be broadcast) unless the slice is 2 by 2 as \<open>B\<close> is.
\<close>

definition setblock2 :: "ndarray2 \<Rightarrow> nat \<Rightarrow> ndarray2 \<Rightarrow> error + ndarray2" where
  "setblock2 A j B =
     (if j + 2 \<le> nrows A \<and> j + 2 \<le> ncols A \<and> nrows B = 2 \<and> ncols B = 2
      then Inr (Array2 (nrows A) (ncols A)
             ((rows A)[j := (rows A ! j)[j := rows B ! 0 ! 0, j + 1 := rows B ! 0 ! 1],
                       j + 1 := (rows A ! (j + 1))[j := rows B ! 1 ! 0, j + 1 := rows B ! 1 ! 1]]))
      else Inl ValueError)"

text \<open>\<open>A.T\<close>.\<close>

definition transpose2 :: "ndarray2 \<Rightarrow> ndarray2" where
  "transpose2 A =
     Array2 (ncols A) (nrows A) (map (\<lambda>c. map (\<lambda>i. rows A ! i ! c) [0..<nrows A]) [0..<ncols A])"

text \<open>\<open>np.dot\<close> of two 2-D arrays, and of a 2-D array and a 1-D array.\<close>

definition dot :: "ndarray2 \<Rightarrow> ndarray2 \<Rightarrow> error + ndarray2" where
  "dot A B =
     (if ncols A \<noteq> nrows B then Inl ValueError
      else Inr (Array2 (nrows A) (ncols B)
             (map (\<lambda>i. map (\<lambda>c. \<Sum>l\<leftarrow>[0..<ncols A]. rows A ! i ! l * rows B ! l ! c) [0..<ncols B])
                [0..<nrows A])))"

definition dot_vec :: "ndarray2 \<Rightarrow> real list \<Rightarrow> error + real list" where
  "dot_vec A v =
     (if ncols A \<noteq> length v then Inl ValueError
      else Inr (map (\<lambda>i. \<Sum>l\<leftarrow>[0..<ncols A]. rows A ! i ! l * v ! l) [0..<nrows A]))"

text \<open>
  \<open>numpy.linalg.inv\<close>, which the source applies to (2, 2) arrays only: the inverse of
  the matrix, and \<open>LinAlgError\<close> when the matrix is singular (or not square).
\<close>

definition linalg_inv :: "ndarray2 \<Rightarrow> error + ndarray2" where
  "linalg_inv A =
     (case rows A of
        [[a, b], [c, d]] \<Rightarrow>
          (if nrows A \<noteq> 2 \<or> ncols A \<noteq> 2 \<or> a * d - b * c = 0 then Inl LinAlgError
           else Inr (Array2 2 2 [[d / (a * d - b * c), - b / (a * d - b * c)],
                                 [- c / (a * d - b * c), a / (a * d - b * c)]]))
      | _ \<Rightarrow> Inl LinAlgError)"

subsection \<open>weighted\_mean\_twod\<close>

text \<open>
  The body of the loop over \<open>j\<close>, statement by statement; the state is the four arrays
  the loop assigns to: \<open>cinv\<close>, \<open>cov\<close>, \<open>mat_a\<close> and \<open>vec_b\<close>. Each right-hand side is
  read before its assignment is made. The third assignment to \<open>cov\<close> reads \<open>sx[k]\<close> and
  \<open>sy[k]\<close> again; these reads have succeeded before and give the values \<open>sxk\<close>, \<open>syk\<close>.
\<close>

definition loop_body ::
  "real list \<Rightarrow> real list \<Rightarrow> real list \<Rightarrow> real list \<Rightarrow> real list \<Rightarrow> nat \<Rightarrow>
   ndarray2 \<times> ndarray2 \<times> ndarray2 \<times> real list \<Rightarrow>
   error + (ndarray2 \<times> ndarray2 \<times> ndarray2 \<times> real list)" where
  "loop_body x y sx sy cxy j s =
     (case s of (cinv, cov, mat_a, vec_b) \<Rightarrow>
      bind (setrow mat_a j [1, 0]) (\<lambda>mat_a.
      bind (setrow mat_a (j + 1) [0, 1]) (\<lambda>mat_a.
      let k = nat \<lfloor>real j / 2\<rfloor> in
      bind (getitem x k) (\<lambda>xk.
      bind (setitem vec_b j xk) (\<lambda>vec_b.
      bind (getitem y k) (\<lambda>yk.
      bind (setitem vec_b (j + 1) yk) (\<lambda>vec_b.
      bind (getitem sx k) (\<lambda>sxk.
      bind (setitem2 cov 0 0 (sxk ^ 2)) (\<lambda>cov.
      bind (getitem sy k) (\<lambda>syk.
      bind (setitem2 cov 1 1 (syk ^ 2)) (\<lambda>cov.
      bind (getitem cxy k) (\<lambda>cxyk.
      bind (setitem2 cov 1 0 (sxk * syk * cxyk)) (\<lambda>cov.
      bind (getitem2 cov 1 0) (\<lambda>c10.
      bind (setitem2 cov 0 1 c10) (\<lambda>cov.
      bind (linalg_inv cov) (\<lambda>ci.
      bind (setblock2 cinv j ci) (\<lambda>cinv.
      Inr (cinv, cov, mat_a, vec_b))))))))))))))))))"

definition weighted_mean_twod ::
  "real list \<Rightarrow> real list \<Rightarrow> real list \<Rightarrow> real list \<Rightarrow> real list \<Rightarrow>
   error + (real \<times> real \<times> ndarray2)" where
  "weighted_mean_twod x y sx sy cxy =
     (let ndata = length x;
          cinv = zeros2 (2 * ndata) (2 * ndata);
          cov = zeros2 2 2;
          mat_a = zeros2 (2 * ndata) 2;
          vec_b = zeros1 (2 * ndata)
      in bind (for_loop (loop_body x y sx sy cxy) (range_step2 (2 * ndata))
                 (cinv, cov, mat_a, vec_b)) (\<lambda>(cinv, cov, mat_a, vec_b).
         bind (dot cinv mat_a) (\<lambda>cm.
         bind (dot (transpose2 mat_a) cm) (\<lambda>normal.
         bind (linalg_inv normal) (\<lambda>covw.
         bind (dot_vec cinv vec_b) (\<lambda>cb.
         bind (dot_vec (transpose2 mat_a) cb) (\<lambda>rhs.
         bind (dot_vec covw rhs) (\<lambda>w.
         (case w of [wx, wy] \<Rightarrow> Inr (wx, wy, covw) | _ \<Rightarrow> Inl ValueError)))))))))"

subsection \<open>rse\<close>

text \<open>
  \<open>scipy.stats.scoreatpercentile(a, per)\<close> with its default arguments (no limit,
  \<open>interpolation_method='fraction'\<close>, \<open>axis=None\<close>), a library routine: the empty array
  gives NaN; otherwise the array is sorted and the value at the fractional index
  \<open>idx = per / 100 * (n - 1)\<close> is the sum of the one or two neighbouring entries times
  their weights, over the sum of the weights. The array is not empty there, so
  \<open>idx \<ge> 0\<close> and \<open>int(idx)\<close> is its floor, and the slice \<open>[i : i + 2]\<close> has two
  entries whenever \<open>idx\<close> is not an integer.
\<close>

definition slice1 :: "real list \<Rightarrow> nat \<Rightarrow> nat \<Rightarrow> real list" where
  "slice1 a i j = take (j - i) (drop i a)"

definition compute_qth_percentile :: "real list \<Rightarrow> real \<Rightarrow> error + npfloat" where
  "compute_qth_percentile sorted_a per =
     (if \<not> (0 \<le> per \<and> per \<le> 100) then Inl ValueError
      else let idx = per / 100 * (real (length sorted_a) - 1);
               i = nat \<lfloor>idx\<rfloor>
           in if real i = idx
              then Inr (np_div (Num (sum_list (map2 (*) (slice1 sorted_a i (i + 1)) [1]))) (Num 1))
              else let j = i + 1;
                       weights = [real j - idx, idx - real i];
                       sumval = sum_list weights
                   in Inr (np_div (Num (sum_list (map2 (*) (slice1 sorted_a i (i + 2)) weights)))
                                  (Num sumval)))"

definition scoreatpercentile :: "real list \<Rightarrow> real \<Rightarrow> error + npfloat" where
  "scoreatpercentile a per =
     (if length a = 0 then Inr NaN
      else let sorted_a = sort a in compute_qth_percentile sorted_a per)"

text \<open>
  The module constant \<open>_rse_constant\<close>. \<open>scipy.special.erfinv\<close> is a special function
  of the library; it is a parameter of the model.
\<close>

definition rse_constant :: "(real \<Rightarrow> real) \<Rightarrow> npfloat" where
  "rse_constant erfinv = np_div (Num 1) (Num (sqrt 2 * 2 * erfinv 0.8))"

definition rse :: "(real \<Rightarrow> real) \<Rightarrow> real list \<Rightarrow> error + npfloat" where
  "rse erfinv x =
     bind (scoreatpercentile x 90) (\<lambda>p90.
     bind (scoreatpercentile x 10) (\<lambda>p10.
     Inr (np_mul (rse_constant erfinv) (np_sub p90 p10))))"

subsection \<open>weighted\_mean\_oned\<close>

text \<open>
  An elementwise operation on two 1-D arrays, with numpy's broadcasting: the lengths
  must agree unless one of them is 1.
\<close>

definition np_binop ::
  "(npfloat \<Rightarrow> npfloat \<Rightarrow> npfloat) \<Rightarrow> npfloat list \<Rightarrow> npfloat list \<Rightarrow> error + npfloat list" where
  "np_binop f a b =
     (if length a = length b then Inr (map2 f a b)
      else if length a = 1 then Inr (map (f (hd a)) b)
      else if length b = 1 then Inr (map (\<lambda>u. f u (hd b)) a)
      else Inl ValueError)"

definition weighted_mean_oned :: "real list \<Rightarrow> real list \<Rightarrow> error + (npfloat \<times> npfloat)" where
  "weighted_mean_oned x sx =
     (let xf = map Num x; sxf = map Num sx
      in bind (np_binop np_mul (map (np_div (Num 1)) sxf) sxf) (\<lambda>ws.
         let w = np_sum ws in
         bind (np_binop np_div xf sxf) (\<lambda>q.
         bind (np_binop np_mul q sxf) (\<lambda>wxs.
         let wx = np_div (np_sum wxs) w in
         Inr (wx, np_sqrt (np_div (Num 1) w))))))"

section \<open>The properties the specification states\<close>

subsection \<open>Percentiles by linear interpolation\<close>

text \<open>
  The percentile \<open>q\<close> of \<open>x\<close> by linear interpolation between order statistics: with
  \<open>s\<close> the sorted values and \<open>h = q / 100 * (n - 1)\<close>, the value between
  \<open>s[floor h]\<close> and \<open>s[ceiling h]\<close> at the fraction \<open>h - floor h\<close>.
\<close>

definition percentile_interp :: "real list \<Rightarrow> real \<Rightarrow> real" where
  "percentile_interp x q =
     (let s = sort x;
          h = q / 100 * (real (length x) - 1);
          lo = nat \<lfloor>h\<rfloor>;
          hi = nat \<lceil>h\<rceil>
      in s ! lo + (h - real lo) * (s ! hi - s ! lo))"

subsection \<open>Symmetric and positive definite (2, 2) arrays\<close>

definition symmetric2 :: "ndarray2 \<Rightarrow> bool" where
  "symmetric2 A = (rows A ! 0 ! 1 = rows A ! 1 ! 0)"

text \<open>The quadratic form \<open>v\<^sup>T A v\<close> of a (2, 2) array at \<open>v = (u, w)\<close>.\<close>

definition quad_form :: "ndarray2 \<Rightarrow> real \<Rightarrow> real \<Rightarrow> real" where
  "quad_form A u w =
     u * (rows A ! 0 ! 0 * u + rows A ! 0 ! 1 * w) + w * (rows A ! 1 ! 0 * u + rows A ! 1 ! 1 * w)"

definition positive_definite :: "ndarray2 \<Rightarrow> bool" where
  "positive_definite A = (\<forall>u w. (u \<noteq> 0 \<or> w \<noteq> 0) \<longrightarrow> 0 < quad_form A u w)"

subsection \<open>The per-point formulation of the weighted mean\<close>

text \<open>
  The computation as the specification words it for an optimised implementation: each
  point \<open>i\<close> has the design block \<open>A_i\<close> (the 2 by 2 identity), the precision block
  \<open>Cinv_i\<close> (the inverse of its covariance matrix) and the observation \<open>b_i = (x_i, y_i)\<close>;
  the running 2 by 2 normal matrix accumulates \<open>A_i\<^sup>T Cinv_i A_i\<close> and the running
  2-vector accumulates \<open>A_i\<^sup>T Cinv_i b_i\<close>; no array of size \<open>2N\<close> is built.
\<close>

definition add1 :: "real list \<Rightarrow> real list \<Rightarrow> real list" where
  "add1 a b = map2 (+) a b"

definition add2 :: "ndarray2 \<Rightarrow> ndarray2 \<Rightarrow> ndarray2" where
  "add2 A B = Array2 (nrows A) (ncols A) (map2 add1 (rows A) (rows B))"

definition block_step ::
  "real list \<Rightarrow> real list \<Rightarrow> real list \<Rightarrow> real list \<Rightarrow> real list \<Rightarrow> nat \<Rightarrow>
   ndarray2 \<times> real list \<Rightarrow> error + (ndarray2 \<times> real list)" where
  "block_step x y sx sy cxy i s =
     (case s of (normal, rhs) \<Rightarrow>
      bind (getitem x i) (\<lambda>xi.
      bind (getitem y i) (\<lambda>yi.
      bind (getitem sx i) (\<lambda>sxi.
      bind (getitem sy i) (\<lambda>syi.
      bind (getitem cxy i) (\<lambda>cxyi.
      let a_i = Array2 2 2 [[1, 0], [0, 1]];
          b_i = [xi, yi];
          cov_i = Array2 2 2 [[sxi ^ 2, sxi * syi * cxyi], [sxi * syi * cxyi, syi ^ 2]]
      in bind (linalg_inv cov_i) (\<lambda>cinv_i.
         bind (dot cinv_i a_i) (\<lambda>ca.
         bind (dot (transpose2 a_i) ca) (\<lambda>aca.
         bind (dot_vec cinv_i b_i) (\<lambda>cb.
         bind (dot_vec (transpose2 a_i) cb) (\<lambda>acb.
         Inr (add2 normal aca, add1 rhs acb))))))))))))"

definition weighted_mean_twod_blocks ::
  "real list \<Rightarrow> real list \<Rightarrow> real list \<Rightarrow> real list \<Rightarrow> real list \<Rightarrow>
   error + (real \<times> real \<times> ndarray2)" where
  "weighted_mean_twod_blocks x y sx sy cxy =
     bind (for_loop (block_step x y sx sy cxy) [0..<length x] (zeros2 2 2, zeros1 2))
       (\<lambda>(normal, rhs).
     bind (linalg_inv normal) (\<lambda>covw.
     bind (dot_vec covw rhs) (\<lambda>w.
     (case w of [wx, wy] \<Rightarrow> Inr (wx, wy, covw) | _ \<Rightarrow> Inl ValueError))))"

section \<open>The state of the loop in closed form\<close>

text \<open>
  The covariance matrix of a point with uncertainties \<open>s\<close>, \<open>t\<close> and correlation \<open>c\<close>,
  its determinant as \<open>linalg_inv\<close> computes it, and its inverse.
\<close>

definition pcov :: "real \<Rightarrow> real \<Rightarrow> real \<Rightarrow> real list list" where
  "pcov s t c = [[s ^ 2, s * t * c], [s * t * c, t ^ 2]]"

definition pdet :: "real \<Rightarrow> real \<Rightarrow> real \<Rightarrow> real" where
  "pdet s t c = s ^ 2 * t ^ 2 - (s * t * c) * (s * t * c)"

definition prec :: "real \<Rightarrow> real \<Rightarrow> real \<Rightarrow> real list list" where
  "prec s t c = [[t ^ 2 / pdet s t c, - (s * t * c) / pdet s t c],
                 [- (s * t * c) / pdet s t c, s ^ 2 / pdet s t c]]"

text \<open>
  The rows of \<open>mat_a\<close>, the entries of \<open>vec_b\<close> and the rows of \<open>cinv\<close> once the loop
  has handled the first \<open>m\<close> of \<open>N\<close> points.
\<close>

definition matS :: "nat \<Rightarrow> nat \<Rightarrow> real list list" where
  "matS N m = map (\<lambda>i. if i < 2 * m then (if even i then [1, 0] else [0, 1]) else [0, 0]) [0..<2 * N]"

definition vecS :: "real list \<Rightarrow> real list \<Rightarrow> nat \<Rightarrow> nat \<Rightarrow> real list" where
  "vecS x y N m =
     map (\<lambda>i. if i < 2 * m then (if even i then x ! (i div 2) else y ! (i div 2)) else 0) [0..<2 * N]"

definition cinvS :: "real list \<Rightarrow> real list \<Rightarrow> real list \<Rightarrow> nat \<Rightarrow> nat \<Rightarrow> real list list" where
  "cinvS sx sy cxy N m =
     map (\<lambda>i. map (\<lambda>l. if i < 2 * m \<and> i div 2 = l div 2
                         then prec (sx ! (i div 2)) (sy ! (i div 2)) (cxy ! (i div 2)) ! (i mod 2) ! (l mod 2)
                         else 0) [0..<2 * N]) [0..<2 * N]"

text \<open>The products \<open>cinv mat_a\<close> and \<open>cinv vec_b\<close> after the loop.\<close>

definition cmS :: "real list \<Rightarrow> real list \<Rightarrow> real list \<Rightarrow> nat \<Rightarrow> real list list" where
  "cmS sx sy cxy N =
     map (\<lambda>i. map (\<lambda>c. prec (sx ! (i div 2)) (sy ! (i div 2)) (cxy ! (i div 2)) ! (i mod 2) ! c) [0..<2])
       [0..<2 * N]"

definition cbS ::
  "real list \<Rightarrow> real list \<Rightarrow> real list \<Rightarrow> real list \<Rightarrow> real list \<Rightarrow> nat \<Rightarrow> real list" where
  "cbS x y sx sy cxy N =
     map (\<lambda>i. prec (sx ! (i div 2)) (sy ! (i div 2)) (cxy ! (i div 2)) ! (i mod 2) ! 0 * x ! (i div 2)
             + prec (sx ! (i div 2)) (sy ! (i div 2)) (cxy ! (i div 2)) ! (i mod 2) ! 1 * y ! (i div 2))
       [0..<2 * N]"

text \<open>
  The entries of the normal matrix \<open>mat_a\<^sup>T cinv mat_a\<close> and of the right-hand side
  \<open>mat_a\<^sup>T cinv vec_b\<close>: sums of the per-point precision blocks over the first \<open>N\<close> points.
\<close>

definition normal_sum :: "real list \<Rightarrow> real list \<Rightarrow> real list \<Rightarrow> nat \<Rightarrow> nat \<Rightarrow> nat \<Rightarrow> real" where
  "normal_sum sx sy cxy N r c = (\<Sum>k<N. prec (sx ! k) (sy ! k) (cxy ! k) ! r ! c)"

definition rhs_sum ::
  "real list \<Rightarrow> real list \<Rightarrow> real list \<Rightarrow> real list \<Rightarrow> real list \<Rightarrow> nat \<Rightarrow> nat \<Rightarrow> real" where
  "rhs_sum x y sx sy cxy N r =
     (\<Sum>k<N. prec (sx ! k) (sy ! k) (cxy ! k) ! r ! 0 * x ! k
           + prec (sx ! k) (sy ! k) (cxy ! k) ! r ! 1 * y ! k)"

text \<open>The normal matrix, and what the function returns once the loop has succeeded.\<close>

definition normal_matrix :: "real list \<Rightarrow> real list \<Rightarrow> real list \<Rightarrow> nat \<Rightarrow> ndarray2" where
  "normal_matrix sx sy cxy N =
     Array2 2 2 [[normal_sum sx sy cxy N 0 0, normal_sum sx sy cxy N 0 1],
                 [normal_sum sx sy cxy N 1 0, normal_sum sx sy cxy N 1 1]]"

definition solve_normal :: "ndarray2 \<Rightarrow> real list \<Rightarrow> error + (real \<times> real \<times> ndarray2)" where
  "solve_normal normal rhs =
     bind (linalg_inv normal) (\<lambda>covw.
     bind (dot_vec covw rhs) (\<lambda>w.
     (case w of [wx, wy] \<Rightarrow> Inr (wx, wy, covw) | _ \<Rightarrow> Inl ValueError)))"

text \<open>
  A point that one of the arrays \<open>y\<close>, \<open>sx\<close>, \<open>sy\<close>, \<open>cxy\<close> does not hold, or whose
  covariance matrix is singular.
\<close>

definition bad_point :: "real list \<Rightarrow> real list \<Rightarrow> real list \<Rightarrow> real list \<Rightarrow> nat \<Rightarrow> bool" where
  "bad_point y sx sy cxy k \<longleftrightarrow>
     \<not> k < length y \<or> \<not> k < length sx \<or> \<not> k < length sy \<or> \<not> k < length cxy
     \<or> pdet (sx ! k) (sy ! k) (cxy ! k) = 0"

text \<open>
  A function to run \<open>rse\<close> at in the examples: constantly 0.9061938, the value of the
  inverse error function at 0.8 to seven digits.
\<close>

definition erfinv_example :: "real \<Rightarrow> real" where
  "erfinv_example p = 9061938 / 10000000"

section \<open>The loop of weighted\_mean\_twod\<close>

subsection \<open>One iteration\<close>

lemma mat_eqI:
  assumes "length A = n" "length B = n"
    and "\<And>i. i < n \<Longrightarrow> length (A ! i) = p" "\<And>i. i < n \<Longrightarrow> length (B ! i) = p"
    and "\<And>i l. i < n \<Longrightarrow> l < p \<Longrightarrow> A ! i ! l = B ! i ! l"
  shows "A = B"
  using assms by (intro nth_equalityI) auto

lemma pair_cases:
  fixes i m :: nat
  shows "(i = 2 * m \<and> i div 2 = m \<and> i mod 2 = 0) \<or>
         (i = Suc (2 * m) \<and> i div 2 = m \<and> i mod 2 = 1) \<or>
         (i \<noteq> 2 * m \<and> i \<noteq> Suc (2 * m) \<and> i div 2 \<noteq> m \<and> (i < 2 * Suc m) = (i < 2 * m))"
  by presburger

lemma length_matS: "length (matS N m) = 2 * N"
  by (simp add: matS_def)

lemma length_vecS: "length (vecS x y N m) = 2 * N"
  by (simp add: vecS_def)

lemma matS_step:
  assumes "m < N"
  shows "(matS N m)[2 * m := [1, 0], Suc (2 * m) := [0, 1]] = matS N (Suc m)"
  using assms by (auto simp: matS_def nth_list_update intro!: nth_equalityI)

lemma vecS_step:
  assumes "m < N"
  shows "(vecS x y N m)[2 * m := x ! m, Suc (2 * m) := y ! m] = vecS x y N (Suc m)"
  using assms by (auto simp: vecS_def nth_list_update intro!: nth_equalityI)

lemma cinvS_step:
  assumes "m < N"
  shows "(cinvS sx sy cxy N m)
           [2 * m := (cinvS sx sy cxy N m ! (2 * m))
                       [2 * m := prec (sx ! m) (sy ! m) (cxy ! m) ! 0 ! 0,
                        2 * m + 1 := prec (sx ! m) (sy ! m) (cxy ! m) ! 0 ! 1],
            2 * m + 1 := (cinvS sx sy cxy N m ! (2 * m + 1))
                       [2 * m := prec (sx ! m) (sy ! m) (cxy ! m) ! 1 ! 0,
                        2 * m + 1 := prec (sx ! m) (sy ! m) (cxy ! m) ! 1 ! 1]]
         = cinvS sx sy cxy N (Suc m)"
proof (rule mat_eqI [where n = "2 * N" and p = "2 * N"])
  fix i l assume il: "i < 2 * N" "l < 2 * N"
  have m2: "2 * m < 2 * N" "Suc (2 * m) < 2 * N" using assms by simp_all
  show "(cinvS sx sy cxy N m)
           [2 * m := (cinvS sx sy cxy N m ! (2 * m))
                       [2 * m := prec (sx ! m) (sy ! m) (cxy ! m) ! 0 ! 0,
                        2 * m + 1 := prec (sx ! m) (sy ! m) (cxy ! m) ! 0 ! 1],
            2 * m + 1 := (cinvS sx sy cxy N m ! (2 * m + 1))
                       [2 * m := prec (sx ! m) (sy ! m) (cxy ! m) ! 1 ! 0,
                        2 * m + 1 := prec (sx ! m) (sy ! m) (cxy ! m) ! 1 ! 1]] ! i ! l
        = cinvS sx sy cxy N (Suc m) ! i ! l"
    using pair_cases [of i m] pair_cases [of l m] il m2
    by (elim disjE conjE; simp add: cinvS_def nth_list_update)
qed (use assms in \<open>auto simp: cinvS_def nth_list_update\<close>)

lemma linalg_inv_pcov:
  "pdet s t c \<noteq> 0 \<Longrightarrow> linalg_inv (Array2 2 2 (pcov s t c)) = Inr (Array2 2 2 (prec s t c))"
  by (simp add: linalg_inv_def pcov_def prec_def pdet_def)

lemma linalg_inv_pcov_singular:
  "pdet s t c = 0 \<Longrightarrow> linalg_inv (Array2 2 2 (pcov s t c)) = Inl LinAlgError"
  by (simp add: linalg_inv_def pcov_def pdet_def)

lemma setblock2_cinvS:
  assumes "m < N"
  shows "setblock2 (Array2 (2 * N) (2 * N) (cinvS sx sy cxy N m)) (2 * m)
           (Array2 2 2 (prec (sx ! m) (sy ! m) (cxy ! m)))
         = Inr (Array2 (2 * N) (2 * N) (cinvS sx sy cxy N (Suc m)))"
  using assms cinvS_step [OF assms, of sx sy cxy] by (simp add: setblock2_def)

text \<open>
  An iteration for a point that all five arrays hold and whose covariance matrix is
  not singular takes the state for \<open>m\<close> points to the state for \<open>m + 1\<close> points.
\<close>

lemma loop_body_step:
  assumes "m < N" "m < length x" "m < length y" "m < length sx" "m < length sy" "m < length cxy"
    and "pdet (sx ! m) (sy ! m) (cxy ! m) \<noteq> 0"
  shows "loop_body x y sx sy cxy (2 * m)
           (Array2 (2 * N) (2 * N) (cinvS sx sy cxy N m), Array2 2 2 [[a, b], [c, d]],
            Array2 (2 * N) 2 (matS N m), vecS x y N m)
         = Inr (Array2 (2 * N) (2 * N) (cinvS sx sy cxy N (Suc m)),
                Array2 2 2 (pcov (sx ! m) (sy ! m) (cxy ! m)),
                Array2 (2 * N) 2 (matS N (Suc m)), vecS x y N (Suc m))"
proof -
  have inv: "linalg_inv (Array2 2 2 [[(sx ! m)\<^sup>2, sx ! m * sy ! m * cxy ! m],
                 [sx ! m * sy ! m * cxy ! m, (sy ! m)\<^sup>2]])
             = Inr (Array2 2 2 (prec (sx ! m) (sy ! m) (cxy ! m)))"
    using linalg_inv_pcov [OF assms(7)] by (simp add: pcov_def)
  show ?thesis
    using assms(1-6)
    by (simp add: loop_body_def bind_def setrow_def getitem_def setitem_def setitem2_def
        getitem2_def inv setblock2_cinvS matS_step vecS_step pcov_def length_matS length_vecS)
qed

text \<open>
  An iteration for a point that one of the arrays does not hold, or whose covariance
  matrix is singular, raises.
\<close>

lemma loop_body_fails:
  assumes "m < N" "m < length x"
    and "\<not> m < length y \<or> \<not> m < length sx \<or> \<not> m < length sy \<or> \<not> m < length cxy
         \<or> pdet (sx ! m) (sy ! m) (cxy ! m) = 0"
  shows "loop_body x y sx sy cxy (2 * m)
           (Array2 (2 * N) (2 * N) (cinvS sx sy cxy N m), Array2 2 2 [[a, b], [c, d]],
            Array2 (2 * N) 2 (matS N m), vecS x y N m)
         = Inl (if m < length y \<and> m < length sx \<and> m < length sy \<and> m < length cxy
                then LinAlgError else IndexError)"
proof (cases "m < length y \<and> m < length sx \<and> m < length sy \<and> m < length cxy")
  case True
  then have "pdet (sx ! m) (sy ! m) (cxy ! m) = 0" using assms(3) by blast
  then have inv: "linalg_inv (Array2 2 2 [[(sx ! m)\<^sup>2, sx ! m * sy ! m * cxy ! m],
                 [sx ! m * sy ! m * cxy ! m, (sy ! m)\<^sup>2]]) = Inl LinAlgError"
    using linalg_inv_pcov_singular [of "sx ! m" "sy ! m" "cxy ! m"] by (simp add: pcov_def)
  show ?thesis
    using assms(1,2) True
    by (simp add: loop_body_def bind_def setrow_def getitem_def setitem_def setitem2_def
        getitem2_def inv length_matS length_vecS)
next
  case False
  then show ?thesis
    using assms(1,2)
    by (auto simp add: loop_body_def bind_def setrow_def getitem_def setitem_def setitem2_def
        getitem2_def length_matS length_vecS)
qed


subsection \<open>The whole loop\<close>

lemma range_step2_even: "range_step2 (2 * N) = map (\<lambda>i. 2 * i) [0..<N]"
  by (simp add: range_step2_def)

lemma for_loop_states:
  assumes "N \<le> length x" "N \<le> length y" "N \<le> length sx" "N \<le> length sy" "N \<le> length cxy"
    and "\<And>k. k < N \<Longrightarrow> pdet (sx ! k) (sy ! k) (cxy ! k) \<noteq> 0"
    and "m \<le> N"
  shows "\<exists>a' b' c' d'. for_loop (loop_body x y sx sy cxy) (map (\<lambda>i. 2 * i) [m..<N])
           (Array2 (2 * N) (2 * N) (cinvS sx sy cxy N m), Array2 2 2 [[a, b], [c, d]],
            Array2 (2 * N) 2 (matS N m), vecS x y N m)
         = Inr (Array2 (2 * N) (2 * N) (cinvS sx sy cxy N N), Array2 2 2 [[a', b'], [c', d']],
                Array2 (2 * N) 2 (matS N N), vecS x y N N)"
  using assms(7)
proof (induction "N - m" arbitrary: m a b c d)
  case 0
  then show ?case by simp
next
  case (Suc n)
  then have m: "m < N" by simp
  then have upt: "[m..<N] = m # [Suc m..<N]" by (simp add: upt_conv_Cons)
  have step: "loop_body x y sx sy cxy (2 * m)
           (Array2 (2 * N) (2 * N) (cinvS sx sy cxy N m), Array2 2 2 [[a, b], [c, d]],
            Array2 (2 * N) 2 (matS N m), vecS x y N m)
         = Inr (Array2 (2 * N) (2 * N) (cinvS sx sy cxy N (Suc m)),
                Array2 2 2 (pcov (sx ! m) (sy ! m) (cxy ! m)),
                Array2 (2 * N) 2 (matS N (Suc m)), vecS x y N (Suc m))"
    using m assms(1-6) by (intro loop_body_step) auto
  have "n = N - Suc m" "Suc m \<le> N" using Suc.hyps(2) m by simp_all
  from Suc.hyps(1) [OF this, of "(sx ! m)\<^sup>2" "sx ! m * sy ! m * cxy ! m"
      "sx ! m * sy ! m * cxy ! m" "(sy ! m)\<^sup>2"]
  show ?case
    by (simp add: upt step bind_def pcov_def)
qed

text \<open>
  The loop raises when some point below \<open>N\<close> is missing from an array or has a singular
  covariance matrix.
\<close>

lemma for_loop_fails:
  assumes "N \<le> length x" and "m \<le> k" "k < N" "bad_point y sx sy cxy k"
  shows "\<exists>e. e \<in> {IndexError, LinAlgError} \<and>
           (N \<le> length y \<and> N \<le> length sx \<and> N \<le> length sy \<and> N \<le> length cxy \<longrightarrow> e = LinAlgError) \<and>
           for_loop (loop_body x y sx sy cxy) (map (\<lambda>i. 2 * i) [m..<N])
             (Array2 (2 * N) (2 * N) (cinvS sx sy cxy N m), Array2 2 2 [[a, b], [c, d]],
              Array2 (2 * N) 2 (matS N m), vecS x y N m) = Inl e"
  using assms(2)
proof (induction "k - m" arbitrary: m a b c d)
  case 0
  then have km: "k = m" by simp
  then have upt: "[m..<N] = m # [Suc m..<N]" using assms(3) by (simp add: upt_conv_Cons)
  have "loop_body x y sx sy cxy (2 * m)
           (Array2 (2 * N) (2 * N) (cinvS sx sy cxy N m), Array2 2 2 [[a, b], [c, d]],
            Array2 (2 * N) 2 (matS N m), vecS x y N m)
         = Inl (if m < length y \<and> m < length sx \<and> m < length sy \<and> m < length cxy
                then LinAlgError else IndexError)"
    using assms(1,3,4) km by (intro loop_body_fails) (auto simp: bad_point_def)
  then show ?case using assms(3) km by (simp add: upt bind_def)
next
  case (Suc n)
  then have m: "m < N" "m < k" using assms(3) by simp_all
  then have upt: "[m..<N] = m # [Suc m..<N]" by (simp add: upt_conv_Cons)
  show ?case
  proof (cases "bad_point y sx sy cxy m")
    case True
    have "loop_body x y sx sy cxy (2 * m)
           (Array2 (2 * N) (2 * N) (cinvS sx sy cxy N m), Array2 2 2 [[a, b], [c, d]],
            Array2 (2 * N) 2 (matS N m), vecS x y N m)
         = Inl (if m < length y \<and> m < length sx \<and> m < length sy \<and> m < length cxy
                then LinAlgError else IndexError)"
      using assms(1) m True by (intro loop_body_fails) (auto simp: bad_point_def)
    then show ?thesis using m by (simp add: upt bind_def)
  next
    case False
    have step: "loop_body x y sx sy cxy (2 * m)
           (Array2 (2 * N) (2 * N) (cinvS sx sy cxy N m), Array2 2 2 [[a, b], [c, d]],
            Array2 (2 * N) 2 (matS N m), vecS x y N m)
         = Inr (Array2 (2 * N) (2 * N) (cinvS sx sy cxy N (Suc m)),
                Array2 2 2 (pcov (sx ! m) (sy ! m) (cxy ! m)),
                Array2 (2 * N) 2 (matS N (Suc m)), vecS x y N (Suc m))"
      using m assms(1) False by (intro loop_body_step) (auto simp: bad_point_def)
    have "n = k - Suc m" "Suc m \<le> k" using Suc.hyps(2) m by simp_all
    from Suc.hyps(1) [OF this, of "(sx ! m)\<^sup>2" "sx ! m * sy ! m * cxy ! m"
      "sx ! m * sy ! m * cxy ! m" "(sy ! m)\<^sup>2"]
    show ?thesis
      by (simp add: upt step bind_def pcov_def)
  qed
qed


subsection \<open>The function in closed form\<close>

lemma zeros_states:
  "zeros2 (2 * N) (2 * N) = Array2 (2 * N) (2 * N) (cinvS sx sy cxy N 0)"
  "zeros2 (2 * N) 2 = Array2 (2 * N) 2 (matS N 0)"
  "zeros1 (2 * N) = vecS x y N 0"
  "zeros2 2 2 = Array2 2 2 [[0, 0], [0, 0]]"
  by (simp_all add: zeros2_def zeros1_def cinvS_def matS_def vecS_def map_replicate_const
      numeral_2_eq_2)


lemma upt2: "[0..<2] = [0, 1]"
  by (simp add: upt_conv_Cons)

lemma sum_pairs:
  fixes g :: "nat \<Rightarrow> real"
  shows "(\<Sum>l\<leftarrow>[0..<2 * N]. g l) = (\<Sum>k<N. g (2 * k) + g (Suc (2 * k)))"
  by (induction N) simp_all

lemma sum_list_upt_cong:
  fixes g h :: "nat \<Rightarrow> real"
  assumes "\<And>i. i < n \<Longrightarrow> g i = h i"
  shows "(\<Sum>i\<leftarrow>[0..<n]. g i) = (\<Sum>i\<leftarrow>[0..<n]. h i)"
  using assms by (intro arg_cong [where f = sum_list] map_cong) auto

lemma cinv_mat_entry:
  assumes "i < 2 * N" "c < 2"
  shows "(\<Sum>l\<leftarrow>[0..<2 * N]. cinvS sx sy cxy N N ! i ! l * matS N N ! l ! c)
         = prec (sx ! (i div 2)) (sy ! (i div 2)) (cxy ! (i div 2)) ! (i mod 2) ! c"
proof -
  have c: "c = 0 \<or> c = 1" using assms(2) by auto
  have summand: "cinvS sx sy cxy N N ! i ! (2 * k) * matS N N ! (2 * k) ! c
              + cinvS sx sy cxy N N ! i ! Suc (2 * k) * matS N N ! Suc (2 * k) ! c
            = (if k = i div 2
               then prec (sx ! (i div 2)) (sy ! (i div 2)) (cxy ! (i div 2)) ! (i mod 2) ! c
               else 0)"
    if "k < N" for k
    using that assms(1) c by (auto simp: cinvS_def matS_def)
  have "i div 2 < N" using assms(1) by simp
  then show ?thesis
    by (simp add: sum_pairs summand)
qed

lemma cinv_vec_entry:
  assumes "i < 2 * N"
  shows "(\<Sum>l\<leftarrow>[0..<2 * N]. cinvS sx sy cxy N N ! i ! l * vecS x y N N ! l)
         = prec (sx ! (i div 2)) (sy ! (i div 2)) (cxy ! (i div 2)) ! (i mod 2) ! 0 * x ! (i div 2)
         + prec (sx ! (i div 2)) (sy ! (i div 2)) (cxy ! (i div 2)) ! (i mod 2) ! 1 * y ! (i div 2)"
proof -
  have summand: "cinvS sx sy cxy N N ! i ! (2 * k) * vecS x y N N ! (2 * k)
              + cinvS sx sy cxy N N ! i ! Suc (2 * k) * vecS x y N N ! Suc (2 * k)
            = (if k = i div 2
               then prec (sx ! (i div 2)) (sy ! (i div 2)) (cxy ! (i div 2)) ! (i mod 2) ! 0 * x ! (i div 2)
                  + prec (sx ! (i div 2)) (sy ! (i div 2)) (cxy ! (i div 2)) ! (i mod 2) ! 1 * y ! (i div 2)
               else 0)"
    if "k < N" for k
    using that assms(1) by (auto simp: cinvS_def vecS_def)
  have "i div 2 < N" using assms(1) by simp
  then show ?thesis
    by (simp add: sum_pairs summand)
qed

lemma matT_entry:
  fixes g :: "nat \<Rightarrow> real"
  assumes "r < 2"
  shows "(\<Sum>i\<leftarrow>[0..<2 * N]. matS N N ! i ! r * g i) = (\<Sum>k<N. g (2 * k + r))"
proof -
  have r: "r = 0 \<or> r = 1" using assms by auto
  have summand: "matS N N ! (2 * k) ! r * g (2 * k) + matS N N ! Suc (2 * k) ! r * g (Suc (2 * k))
                 = g (2 * k + r)"
    if "k < N" for k
    using that r by (auto simp: matS_def)
  show ?thesis by (simp add: sum_pairs summand)
qed

lemma length_cbS: "length (cbS x y sx sy cxy N) = 2 * N"
  by (simp add: cbS_def)

lemma dot_cinv_mat:
  "dot (Array2 (2 * N) (2 * N) (cinvS sx sy cxy N N)) (Array2 (2 * N) 2 (matS N N))
   = Inr (Array2 (2 * N) 2 (cmS sx sy cxy N))"
  by (simp add: dot_def cmS_def cinv_mat_entry cong: map_cong)

lemma dot_cinv_vec:
  "dot_vec (Array2 (2 * N) (2 * N) (cinvS sx sy cxy N N)) (vecS x y N N)
   = Inr (cbS x y sx sy cxy N)"
  by (simp add: dot_vec_def cbS_def cinv_vec_entry length_vecS cong: map_cong)

lemma dot_matT_cm:
  "dot (transpose2 (Array2 (2 * N) 2 (matS N N))) (Array2 (2 * N) 2 (cmS sx sy cxy N))
   = Inr (normal_matrix sx sy cxy N)"
proof -
  have e: "(\<Sum>i\<leftarrow>[0..<2 * N]. map (\<lambda>i. matS N N ! i ! r) [0..<2 * N] ! i * cmS sx sy cxy N ! i ! c)
           = normal_sum sx sy cxy N r c"
    if "r < 2" "c < 2" for r c
  proof -
    have "(\<Sum>i\<leftarrow>[0..<2 * N]. map (\<lambda>i. matS N N ! i ! r) [0..<2 * N] ! i * cmS sx sy cxy N ! i ! c)
        = (\<Sum>i\<leftarrow>[0..<2 * N]. matS N N ! i ! r *
             prec (sx ! (i div 2)) (sy ! (i div 2)) (cxy ! (i div 2)) ! (i mod 2) ! c)"
      using that by (intro sum_list_upt_cong) (simp add: cmS_def)
    also have "\<dots> = (\<Sum>k<N. prec (sx ! ((2 * k + r) div 2)) (sy ! ((2 * k + r) div 2))
                             (cxy ! ((2 * k + r) div 2)) ! ((2 * k + r) mod 2) ! c)"
      using that(1) by (rule matT_entry)
    also have "\<dots> = normal_sum sx sy cxy N r c"
      using that(1) unfolding normal_sum_def by (intro sum.cong) auto
    finally show ?thesis .
  qed
  show ?thesis
    using e [of 0 0] e [of 0 1] e [of 1 0] e [of 1 1]
    by (simp add: dot_def transpose2_def upt2 normal_matrix_def)
qed

lemma dot_matT_cb:
  "dot_vec (transpose2 (Array2 (2 * N) 2 (matS N N))) (cbS x y sx sy cxy N)
   = Inr [rhs_sum x y sx sy cxy N 0, rhs_sum x y sx sy cxy N 1]"
proof -
  have e: "(\<Sum>i\<leftarrow>[0..<2 * N]. map (\<lambda>i. matS N N ! i ! r) [0..<2 * N] ! i * cbS x y sx sy cxy N ! i)
           = rhs_sum x y sx sy cxy N r"
    if "r < 2" for r
  proof -
    have "(\<Sum>i\<leftarrow>[0..<2 * N]. map (\<lambda>i. matS N N ! i ! r) [0..<2 * N] ! i * cbS x y sx sy cxy N ! i)
        = (\<Sum>i\<leftarrow>[0..<2 * N]. matS N N ! i ! r *
            (prec (sx ! (i div 2)) (sy ! (i div 2)) (cxy ! (i div 2)) ! (i mod 2) ! 0 * x ! (i div 2)
           + prec (sx ! (i div 2)) (sy ! (i div 2)) (cxy ! (i div 2)) ! (i mod 2) ! 1 * y ! (i div 2)))"
      by (intro sum_list_upt_cong) (simp add: cbS_def)
    also have "\<dots> = (\<Sum>k<N. prec (sx ! ((2 * k + r) div 2)) (sy ! ((2 * k + r) div 2))
                              (cxy ! ((2 * k + r) div 2)) ! ((2 * k + r) mod 2) ! 0 * x ! ((2 * k + r) div 2)
                          + prec (sx ! ((2 * k + r) div 2)) (sy ! ((2 * k + r) div 2))
                              (cxy ! ((2 * k + r) div 2)) ! ((2 * k + r) mod 2) ! 1 * y ! ((2 * k + r) div 2))"
      using that(1) by (rule matT_entry)
    also have "\<dots> = rhs_sum x y sx sy cxy N r"
      using that(1) unfolding rhs_sum_def by (intro sum.cong) auto
    finally show ?thesis .
  qed
  show ?thesis
    using e [of 0] e [of 1]
    by (simp add: dot_vec_def transpose2_def upt2 length_cbS)
qed

text \<open>
  When every point below \<open>x.size\<close> is held by all arrays and has a regular covariance
  matrix, the function solves the 2 by 2 normal equations of the per-point sums.
\<close>

lemma weighted_mean_twod_closed:
  assumes "\<And>k. k < length x \<Longrightarrow> \<not> bad_point y sx sy cxy k"
  shows "weighted_mean_twod x y sx sy cxy
         = solve_normal (normal_matrix sx sy cxy (length x))
             [rhs_sum x y sx sy cxy (length x) 0, rhs_sum x y sx sy cxy (length x) 1]"
proof -
  define N where "N = length x"
  have len: "N \<le> length x" "N \<le> length y" "N \<le> length sx" "N \<le> length sy" "N \<le> length cxy"
    using assms unfolding N_def bad_point_def by (auto simp: not_less [symmetric] dest: less_imp_le)
  have reg: "pdet (sx ! k) (sy ! k) (cxy ! k) \<noteq> 0" if "k < N" for k
    using assms that unfolding N_def bad_point_def by auto
  obtain a b c d where loop:
    "for_loop (loop_body x y sx sy cxy) (map (\<lambda>i. 2 * i) [0..<N])
       (Array2 (2 * N) (2 * N) (cinvS sx sy cxy N 0), Array2 2 2 [[0, 0], [0, 0]],
        Array2 (2 * N) 2 (matS N 0), vecS x y N 0)
     = Inr (Array2 (2 * N) (2 * N) (cinvS sx sy cxy N N), Array2 2 2 [[a, b], [c, d]],
            Array2 (2 * N) 2 (matS N N), vecS x y N N)"
    using for_loop_states [OF len reg, of 0 0 0 0 0] by auto
  show ?thesis
    unfolding weighted_mean_twod_def Let_def N_def [symmetric] range_step2_even
      zeros_states(1) [of N sx sy cxy] zeros_states(2) zeros_states(3) [of N x y] zeros_states(4)
      loop
    by (simp add: bind_def dot_cinv_mat dot_matT_cm dot_cinv_vec dot_matT_cb solve_normal_def
        split: sum.split)
qed

lemma weighted_mean_twod_fails:
  assumes "k < length x" "bad_point y sx sy cxy k"
  shows "\<exists>e. e \<in> {IndexError, LinAlgError} \<and>
           (length x \<le> length y \<and> length x \<le> length sx \<and> length x \<le> length sy
            \<and> length x \<le> length cxy \<longrightarrow> e = LinAlgError) \<and>
           weighted_mean_twod x y sx sy cxy = Inl e"
proof -
  define N where "N = length x"
  obtain e where e: "e \<in> {IndexError, LinAlgError}"
    "N \<le> length y \<and> N \<le> length sx \<and> N \<le> length sy \<and> N \<le> length cxy \<longrightarrow> e = LinAlgError"
    "for_loop (loop_body x y sx sy cxy) (map (\<lambda>i. 2 * i) [0..<N])
       (Array2 (2 * N) (2 * N) (cinvS sx sy cxy N 0), Array2 2 2 [[0, 0], [0, 0]],
        Array2 (2 * N) 2 (matS N 0), vecS x y N 0) = Inl e"
    using for_loop_fails [of N x 0 k y sx sy cxy 0 0 0 0] assms unfolding N_def by auto
  have "weighted_mean_twod x y sx sy cxy = Inl e"
    unfolding weighted_mean_twod_def Let_def N_def [symmetric] range_step2_even
      zeros_states(1) [of N sx sy cxy] zeros_states(2) zeros_states(3) [of N x y] zeros_states(4)
      e(3)
    by (simp add: bind_def)
  then show ?thesis using e(1,2) unfolding N_def by blast
qed


section \<open>Invalid inputs\<close>

lemma pdet_zero_iff: "pdet s t c = 0 \<longleftrightarrow> s = 0 \<or> t = 0 \<or> \<bar>c\<bar> = 1"
proof -
  have "pdet s t c = s\<^sup>2 * t\<^sup>2 * (1 - c\<^sup>2)"
    by (simp add: pdet_def power2_eq_square algebra_simps)
  moreover have "1 - c\<^sup>2 = 0 \<longleftrightarrow> \<bar>c\<bar> = 1"
    by (metis abs_1 eq_iff_diff_eq_0 one_power2 power2_eq_iff_nonneg abs_ge_zero power2_abs zero_le_one)
  ultimately show ?thesis by simp
qed

text \<open>
  C8. When \<open>sx\<close> holds a zero at the index of one of the \<open>x.size\<close> points, the call
  raises: \<open>LinAlgError\<close> (the singular matrix) or \<open>IndexError\<close> (an array too short),
  and \<open>LinAlgError\<close> when no array is shorter than \<open>x\<close>. No result is returned.
\<close>

theorem weighted_mean_twod_zero_sx:
  assumes "k < length x" "k < length sx" "sx ! k = 0"
  shows "(weighted_mean_twod x y sx sy cxy = Inl LinAlgError
          \<or> weighted_mean_twod x y sx sy cxy = Inl IndexError)
       \<and> (length x \<le> length y \<and> length x \<le> length sx \<and> length x \<le> length sy
            \<and> length x \<le> length cxy
          \<longrightarrow> weighted_mean_twod x y sx sy cxy = Inl LinAlgError)"
proof -
  have "bad_point y sx sy cxy k"
    using assms(3) by (simp add: bad_point_def pdet_zero_iff)
  from weighted_mean_twod_fails [OF assms(1) this] show ?thesis by auto
qed

theorem weighted_mean_twod_zero_sx_witness:
  "weighted_mean_twod [1, 2] [3, 4] [1, 0] [1, 1] [0, 0] = Inl LinAlgError"
  using weighted_mean_twod_zero_sx [of 1 "[1, 2]" "[1, 0]" "[3, 4]" "[1, 1]" "[0, 0]"]
  by simp


text \<open>
  C6 as the specification states it does not hold: the function validates nothing. A
  negative uncertainty is squared, the covariance matrix is regular, and a result is
  returned.
\<close>

theorem weighted_mean_twod_negative_sx_counterexample:
  "(- 1 :: real) \<le> 0 \<and>
   weighted_mean_twod [0] [0] [- 1] [1] [0] = Inr (0, 0, Array2 2 2 [[1, 0], [0, 1]])"
  by code_simp

text \<open>
  C6, amended. The function raises when one of \<open>y\<close>, \<open>sx\<close>, \<open>sy\<close>, \<open>cxy\<close> is shorter
  than \<open>x\<close> (an index out of range) and when some \<open>sx[i]\<close> or \<open>sy[i]\<close> with
  \<open>i < x.size\<close> is zero (a singular covariance matrix); it returns no result then.
\<close>

theorem weighted_mean_twod_invalid_input:
  assumes "length y < length x \<or> length sx < length x \<or> length sy < length x
           \<or> length cxy < length x \<or> (\<exists>i<length x. sx ! i = 0 \<or> sy ! i = 0)"
  shows "weighted_mean_twod x y sx sy cxy = Inl IndexError
         \<or> weighted_mean_twod x y sx sy cxy = Inl LinAlgError"
proof -
  have "\<exists>k<length x. bad_point y sx sy cxy k"
  proof -
    consider "length y < length x" | "length sx < length x" | "length sy < length x"
      | "length cxy < length x" | i where "i < length x" "sx ! i = 0 \<or> sy ! i = 0"
      using assms by blast
    then show ?thesis
    proof cases
      case 1
      then show ?thesis by (intro exI [of _ "length y"]) (simp add: bad_point_def)
    next
      case 2
      then show ?thesis by (intro exI [of _ "length sx"]) (simp add: bad_point_def)
    next
      case 3
      then show ?thesis by (intro exI [of _ "length sy"]) (simp add: bad_point_def)
    next
      case 4
      then show ?thesis by (intro exI [of _ "length cxy"]) (simp add: bad_point_def)
    next
      case 5
      then show ?thesis by (intro exI [of _ i]) (auto simp: bad_point_def pdet_zero_iff)
    qed
  qed
  then obtain k where "k < length x" "bad_point y sx sy cxy k" by blast
  from weighted_mean_twod_fails [OF this] show ?thesis by auto
qed

theorem weighted_mean_twod_invalid_input_witness:
  "weighted_mean_twod [1, 2] [3] [1, 1] [1, 1] [0, 0] = Inl IndexError
   \<and> weighted_mean_twod [1, 2] [3, 4] [1, 1] [1, 0] [0, 0] = Inl LinAlgError"
proof -
  have a: "weighted_mean_twod [1, 2] [3] [1, 1] [1, 1] [0, 0] \<noteq> Inl LinAlgError"
    by code_simp
  have b: "weighted_mean_twod [1, 2] [3, 4] [1, 1] [1, 0] [0, 0] \<noteq> Inl IndexError"
    by code_simp
  have "\<exists>i<length [1, 2 :: real]. [1, 1 :: real] ! i = 0 \<or> [1, 0 :: real] ! i = 0"
    by (intro exI [of _ 1]) simp
  then show ?thesis
    using weighted_mean_twod_invalid_input [of "[3]" "[1, 2]" "[1, 1]" "[1, 1]" "[0, 0]"]
      weighted_mean_twod_invalid_input [of "[3, 4]" "[1, 2]" "[1, 1]" "[1, 0]" "[0, 0]"] a b
    by simp
qed


section \<open>Positive definite 2 by 2 matrices\<close>

lemma quad_form_rows:
  "quad_form (Array2 m n [[a, b], [c, d]]) u w = u * (a * u + b * w) + w * (c * u + d * w)"
  by (simp add: quad_form_def)

lemma pd2_sufficient:
  fixes a b d :: real
  assumes "0 < a" "0 < a * d - b * b" "u \<noteq> 0 \<or> w \<noteq> 0"
  shows "0 < u * (a * u + b * w) + w * (b * u + d * w)"
proof -
  have eq: "a * (u * (a * u + b * w) + w * (b * u + d * w)) = (a * u + b * w)\<^sup>2 + (a * d - b * b) * w\<^sup>2"
    by (simp add: power2_eq_square algebra_simps)
  have "0 < (a * u + b * w)\<^sup>2 + (a * d - b * b) * w\<^sup>2"
  proof (cases "w = 0")
    case True
    then have "u \<noteq> 0" using assms(3) by simp
    then have "a * u \<noteq> 0" using assms(1) by simp
    then show ?thesis using True by simp
  next
    case False
    then have "0 < (a * d - b * b) * w\<^sup>2" using assms(2) by simp
    moreover have "0 \<le> (a * u + b * w)\<^sup>2" by simp
    ultimately show ?thesis by linarith
  qed
  then have "0 < a * (u * (a * u + b * w) + w * (b * u + d * w))" using eq by simp
  then show ?thesis using assms(1) by (simp add: zero_less_mult_iff)
qed

lemma pd2_necessary:
  fixes a b d :: real
  assumes "\<And>u w. u \<noteq> 0 \<or> w \<noteq> 0 \<Longrightarrow> 0 < u * (a * u + b * w) + w * (b * u + d * w)"
  shows "0 < a \<and> 0 < d \<and> 0 < a * d - b * b"
proof -
  have a: "0 < a" using assms [of 1 0] by simp
  have d: "0 < d" using assms [of 0 1] by simp
  have "0 < (- b) * (a * (- b) + b * a) + a * (b * (- b) + d * a)"
    using a by (intro assms) simp
  then have "0 < a * (a * d - b * b)" by (simp add: algebra_simps)
  then have "0 < a * d - b * b" using a by (simp add: zero_less_mult_iff)
  then show ?thesis using a d by simp
qed

lemma positive_definite_sym_iff:
  "positive_definite (Array2 m n [[a, b], [b, d]]) \<longleftrightarrow> 0 < a \<and> 0 < a * d - b * b"
proof
  assume "positive_definite (Array2 m n [[a, b], [b, d]])"
  then have "\<And>u w. u \<noteq> 0 \<or> w \<noteq> 0 \<Longrightarrow> 0 < u * (a * u + b * w) + w * (b * u + d * w)"
    by (simp add: positive_definite_def quad_form_rows)
  from pd2_necessary [OF this] show "0 < a \<and> 0 < a * d - b * b" by simp
next
  assume "0 < a \<and> 0 < a * d - b * b"
  then show "positive_definite (Array2 m n [[a, b], [b, d]])"
    by (simp add: positive_definite_def quad_form_rows pd2_sufficient)
qed

text \<open>The covariance matrix of a point and its inverse.\<close>

lemma pdet_factor: "pdet s t c = s\<^sup>2 * t\<^sup>2 * (1 - c\<^sup>2)"
  by (simp add: pdet_def power2_eq_square algebra_simps)

lemma pdet_pos:
  assumes "s \<noteq> 0" "t \<noteq> 0" "\<bar>c\<bar> < 1"
  shows "0 < pdet s t c"
proof -
  have "c\<^sup>2 < 1" using assms(3) by (simp add: abs_square_less_1)
  then show ?thesis using assms(1,2) by (simp add: pdet_factor)
qed

lemma pcov_positive_definite:
  assumes "s \<noteq> 0" "t \<noteq> 0" "\<bar>c\<bar> < 1"
  shows "positive_definite (Array2 2 2 (pcov s t c))"
proof -
  have "0 < s\<^sup>2" using assms(1) by simp
  moreover have "0 < s\<^sup>2 * t\<^sup>2 - s * t * c * (s * t * c)"
    using pdet_pos [OF assms] by (simp add: pdet_def)
  ultimately show ?thesis
    unfolding pcov_def positive_definite_sym_iff by simp
qed

lemma prec_det:
  assumes "pdet s t c \<noteq> 0"
  shows "prec s t c ! 0 ! 0 * prec s t c ! 1 ! 1 - prec s t c ! 0 ! 1 * prec s t c ! 1 ! 0
         = 1 / pdet s t c"
proof -
  define D where "D = pdet s t c"
  have D: "D \<noteq> 0" using assms by (simp add: D_def)
  have "t\<^sup>2 / D * (s\<^sup>2 / D) - (- (s * t * c) / D) * (- (s * t * c) / D)
        = (s\<^sup>2 * t\<^sup>2 - (s * t * c) * (s * t * c)) / (D * D)"
    by (simp add: diff_divide_distrib mult.commute)
  also have "\<dots> = D / (D * D)" by (simp add: D_def pdet_def)
  also have "\<dots> = 1 / D" using D by simp
  finally show ?thesis by (simp add: prec_def D_def)
qed

lemma prec_quad_pos:
  assumes "s \<noteq> 0" "t \<noteq> 0" "\<bar>c\<bar> < 1" "u \<noteq> 0 \<or> w \<noteq> 0"
  shows "0 < u * (prec s t c ! 0 ! 0 * u + prec s t c ! 0 ! 1 * w)
           + w * (prec s t c ! 1 ! 0 * u + prec s t c ! 1 ! 1 * w)"
proof -
  have D: "0 < pdet s t c" by (rule pdet_pos [OF assms(1-3)])
  have sym: "prec s t c ! 1 ! 0 = prec s t c ! 0 ! 1" by (simp add: prec_def)
  have a: "0 < prec s t c ! 0 ! 0" using D assms(2) by (simp add: prec_def)
  have det: "0 < prec s t c ! 0 ! 0 * prec s t c ! 1 ! 1 - prec s t c ! 0 ! 1 * prec s t c ! 0 ! 1"
  proof -
    have "prec s t c ! 0 ! 0 * prec s t c ! 1 ! 1 - prec s t c ! 0 ! 1 * prec s t c ! 0 ! 1
          = 1 / pdet s t c"
      using prec_det [of s t c] D unfolding sym by simp
    then show ?thesis using D by simp
  qed
  show ?thesis
    unfolding sym by (rule pd2_sufficient [OF a det assms(4)])
qed


section \<open>The result for valid inputs\<close>

lemma solve_normal_regular:
  assumes "a * d - b * c \<noteq> 0"
  shows "solve_normal (Array2 2 2 [[a, b], [c, d]]) [p, q]
         = Inr (d / (a * d - b * c) * p + - b / (a * d - b * c) * q,
                - c / (a * d - b * c) * p + a / (a * d - b * c) * q,
                Array2 2 2 [[d / (a * d - b * c), - b / (a * d - b * c)],
                            [- c / (a * d - b * c), a / (a * d - b * c)]])"
  using assms by (simp add: solve_normal_def linalg_inv_def bind_def dot_vec_def upt2)

lemma solve_normal_singular:
  assumes "a * d - b * c = 0"
  shows "solve_normal (Array2 2 2 [[a, b], [c, d]]) v = Inl LinAlgError"
  using assms by (simp add: solve_normal_def linalg_inv_def bind_def)

lemma normal_sum_sym: "normal_sum sx sy cxy N 1 0 = normal_sum sx sy cxy N 0 1"
  by (simp add: normal_sum_def prec_def)

lemma normal_quad:
  "u * (normal_sum sx sy cxy N 0 0 * u + normal_sum sx sy cxy N 0 1 * w)
   + w * (normal_sum sx sy cxy N 1 0 * u + normal_sum sx sy cxy N 1 1 * w)
   = (\<Sum>k<N. u * (prec (sx ! k) (sy ! k) (cxy ! k) ! 0 ! 0 * u + prec (sx ! k) (sy ! k) (cxy ! k) ! 0 ! 1 * w)
            + w * (prec (sx ! k) (sy ! k) (cxy ! k) ! 1 ! 0 * u + prec (sx ! k) (sy ! k) (cxy ! k) ! 1 ! 1 * w))"
  by (simp add: normal_sum_def sum.distrib sum_distrib_left sum_distrib_right distrib_left)

text \<open>
  The normal matrix of at least one point, all with regular uncertainties and a
  correlation strictly between -1 and 1, is positive definite.
\<close>

lemma normal_positive:
  assumes "0 < N" and "\<And>k. k < N \<Longrightarrow> sx ! k \<noteq> 0 \<and> sy ! k \<noteq> 0 \<and> \<bar>cxy ! k\<bar> < 1"
  shows "0 < normal_sum sx sy cxy N 0 0"
    and "0 < normal_sum sx sy cxy N 1 1"
    and "0 < normal_sum sx sy cxy N 0 0 * normal_sum sx sy cxy N 1 1
             - normal_sum sx sy cxy N 0 1 * normal_sum sx sy cxy N 1 0"
proof -
  have q: "0 < u * (normal_sum sx sy cxy N 0 0 * u + normal_sum sx sy cxy N 0 1 * w)
             + w * (normal_sum sx sy cxy N 0 1 * u + normal_sum sx sy cxy N 1 1 * w)"
    if "u \<noteq> 0 \<or> w \<noteq> 0" for u w
  proof -
    have "0 < (\<Sum>k<N. u * (prec (sx ! k) (sy ! k) (cxy ! k) ! 0 ! 0 * u + prec (sx ! k) (sy ! k) (cxy ! k) ! 0 ! 1 * w)
            + w * (prec (sx ! k) (sy ! k) (cxy ! k) ! 1 ! 0 * u + prec (sx ! k) (sy ! k) (cxy ! k) ! 1 ! 1 * w))"
      using assms that by (intro sum_pos prec_quad_pos) auto
    then show ?thesis
      unfolding normal_quad [symmetric] normal_sum_sym .
  qed
  from pd2_necessary [OF q]
  show "0 < normal_sum sx sy cxy N 0 0" "0 < normal_sum sx sy cxy N 1 1"
    "0 < normal_sum sx sy cxy N 0 0 * normal_sum sx sy cxy N 1 1
             - normal_sum sx sy cxy N 0 1 * normal_sum sx sy cxy N 1 0"
    unfolding normal_sum_sym by simp_all
qed

lemma valid_not_bad:
  assumes "length x \<le> length y" "length x \<le> length sx" "length x \<le> length sy"
    "length x \<le> length cxy"
    and "\<And>k. k < length x \<Longrightarrow> sx ! k \<noteq> 0 \<and> sy ! k \<noteq> 0 \<and> \<bar>cxy ! k\<bar> < 1"
    and "k < length x"
  shows "\<not> bad_point y sx sy cxy k"
  using assms(1-4,6) assms(5) [OF assms(6)] by (auto simp: bad_point_def pdet_zero_iff)

text \<open>
  For valid inputs the function returns the solution of the normal equations: with
  \<open>a\<close>, \<open>b\<close>, \<open>d\<close> the entries of the (symmetric) normal matrix and \<open>p\<close>, \<open>q\<close> the
  right-hand side, \<open>covw\<close> is the inverse of the normal matrix and \<open>(wx, wy)\<close> is
  \<open>covw\<close> applied to \<open>(p, q)\<close>.
\<close>

lemma weighted_mean_twod_valid:
  assumes "0 < length x" "length x \<le> length y" "length x \<le> length sx"
    "length x \<le> length sy" "length x \<le> length cxy"
    and reg: "\<And>k. k < length x \<Longrightarrow> sx ! k \<noteq> 0 \<and> sy ! k \<noteq> 0 \<and> \<bar>cxy ! k\<bar> < 1"
  defines "a \<equiv> normal_sum sx sy cxy (length x) 0 0"
    and "b \<equiv> normal_sum sx sy cxy (length x) 0 1"
    and "d \<equiv> normal_sum sx sy cxy (length x) 1 1"
    and "p \<equiv> rhs_sum x y sx sy cxy (length x) 0"
    and "q \<equiv> rhs_sum x y sx sy cxy (length x) 1"
  shows "weighted_mean_twod x y sx sy cxy
         = Inr (d / (a * d - b * b) * p + - b / (a * d - b * b) * q,
                - b / (a * d - b * b) * p + a / (a * d - b * b) * q,
                Array2 2 2 [[d / (a * d - b * b), - b / (a * d - b * b)],
                            [- b / (a * d - b * b), a / (a * d - b * b)]])"
    and "0 < a" and "0 < d" and "0 < a * d - b * b"
proof -
  show pos: "0 < a" "0 < d" "0 < a * d - b * b"
    using normal_positive [OF assms(1) reg] unfolding a_def b_def d_def normal_sum_sym by simp_all
  have "\<not> bad_point y sx sy cxy k" if "k < length x" for k
    using assms(2-5) reg that by (rule valid_not_bad)
  then have "weighted_mean_twod x y sx sy cxy
        = solve_normal (normal_matrix sx sy cxy (length x)) [p, q]"
    unfolding p_def q_def by (rule weighted_mean_twod_closed)
  also have "normal_matrix sx sy cxy (length x) = Array2 2 2 [[a, b], [b, d]]"
    unfolding normal_matrix_def a_def b_def d_def normal_sum_sym by (rule refl)
  finally show "weighted_mean_twod x y sx sy cxy
         = Inr (d / (a * d - b * b) * p + - b / (a * d - b * b) * q,
                - b / (a * d - b * b) * p + a / (a * d - b * b) * q,
                Array2 2 2 [[d / (a * d - b * b), - b / (a * d - b * b)],
                            [- b / (a * d - b * b), a / (a * d - b * b)]])"
    using pos(3) by (subst (asm) solve_normal_regular) simp_all
qed

text \<open>
  C4. With at least one point, arrays of one length, positive uncertainties and
  correlations strictly between -1 and 1, the function returns, and the (2, 2) array
  \<open>covw\<close> it returns is symmetric and positive definite.
\<close>

theorem weighted_mean_twod_covw_spd:
  assumes "1 \<le> length x" "length y = length x" "length sx = length x"
    "length sy = length x" "length cxy = length x"
    and "\<forall>i<length x. 0 < sx ! i \<and> 0 < sy ! i \<and> \<bar>cxy ! i\<bar> < 1"
  shows "\<exists>wx wy covw. weighted_mean_twod x y sx sy cxy = Inr (wx, wy, covw)
           \<and> nrows covw = 2 \<and> ncols covw = 2
           \<and> rows covw ! 0 ! 1 = rows covw ! 1 ! 0 \<and> symmetric2 covw
           \<and> positive_definite covw"
proof -
  define a where "a = normal_sum sx sy cxy (length x) 0 0"
  define b where "b = normal_sum sx sy cxy (length x) 0 1"
  define d where "d = normal_sum sx sy cxy (length x) 1 1"
  have reg: "sx ! k \<noteq> 0 \<and> sy ! k \<noteq> 0 \<and> \<bar>cxy ! k\<bar> < 1" if "k < length x" for k
    using assms(6) that by auto
  have N: "0 < length x" using assms(1) by (cases x) simp_all
  have len: "length x \<le> length y" "length x \<le> length sx" "length x \<le> length sy"
    "length x \<le> length cxy"
    using assms(2-5) by simp_all
  note v = weighted_mean_twod_valid [OF N len reg, folded a_def b_def d_def]
  have det: "a * d - b * b \<noteq> 0" using v(4) by simp
  have inv_pd: "positive_definite (Array2 2 2 [[d / (a * d - b * b), - b / (a * d - b * b)],
                            [- b / (a * d - b * b), a / (a * d - b * b)]])"
  proof -
    have "d / (a * d - b * b) * (a / (a * d - b * b)) - (- b / (a * d - b * b)) * (- b / (a * d - b * b))
          = (a * d - b * b) / ((a * d - b * b) * (a * d - b * b))"
      by (simp add: diff_divide_distrib mult.commute)
    also have "\<dots> = 1 / (a * d - b * b)" using det by simp
    finally have "0 < d / (a * d - b * b) * (a / (a * d - b * b))
        - (- b / (a * d - b * b)) * (- b / (a * d - b * b))"
      using v(4) by simp
    moreover have "0 < d / (a * d - b * b)" using v(3,4) by simp
    ultimately show ?thesis unfolding positive_definite_sym_iff by simp
  qed
  have "\<exists>wx wy. weighted_mean_twod x y sx sy cxy
          = Inr (wx, wy, Array2 2 2 [[d / (a * d - b * b), - b / (a * d - b * b)],
                            [- b / (a * d - b * b), a / (a * d - b * b)]])"
    by (intro exI) (rule v(1))
  then obtain wx wy where "weighted_mean_twod x y sx sy cxy
          = Inr (wx, wy, Array2 2 2 [[d / (a * d - b * b), - b / (a * d - b * b)],
                            [- b / (a * d - b * b), a / (a * d - b * b)]])"
    by blast
  then show ?thesis
    using inv_pd by (simp add: symmetric2_def)
qed

theorem weighted_mean_twod_covw_spd_witness:
  "weighted_mean_twod [0, 0] [0, 0] [1, 1] [1, 1] [0, 0] = Inr (0, 0, Array2 2 2 [[1 / 2, 0], [0, 1 / 2]])
   \<and> positive_definite (Array2 2 2 [[1 / 2, 0], [0, 1 / 2]])"
proof -
  have run: "weighted_mean_twod [0, 0] [0, 0] [1, 1] [1, 1] [0, 0]
             = Inr (0, 0, Array2 2 2 [[1 / 2, 0], [0, 1 / 2]])"
    by code_simp
  have "\<forall>i<length [0, 0 :: real]. 0 < [1, 1 :: real] ! i \<and> 0 < [1, 1 :: real] ! i \<and> \<bar>[0, 0 :: real] ! i\<bar> < 1"
    by (simp add: less_Suc_eq nth_Cons')
  from weighted_mean_twod_covw_spd [of "[0, 0]" "[0, 0]" "[1, 1]" "[1, 1]" "[0, 0]", OF _ _ _ _ _ this]
  show ?thesis unfolding run by simp
qed


subsection \<open>Uncorrelated points\<close>

lemma prec_uncorrelated:
  assumes "s \<noteq> 0" "t \<noteq> 0"
  shows "prec s t 0 = [[1 / s\<^sup>2, 0], [0, 1 / t\<^sup>2]]"
  using assms by (simp add: prec_def pdet_def)

text \<open>
  C2. With all correlations zero and positive uncertainties, \<open>wx\<close> and \<open>wy\<close> are the
  inverse-variance-weighted means of \<open>x\<close> and of \<open>y\<close>.
\<close>

theorem weighted_mean_twod_uncorrelated:
  assumes "1 \<le> length x" "length y = length x" "length sx = length x"
    "length sy = length x" "length cxy = length x"
    and "\<forall>i<length x. cxy ! i = 0 \<and> 0 < sx ! i \<and> 0 < sy ! i"
  shows "\<exists>covw. weighted_mean_twod x y sx sy cxy
           = Inr ((\<Sum>i<length x. x ! i / (sx ! i)\<^sup>2) / (\<Sum>i<length x. 1 / (sx ! i)\<^sup>2),
                  (\<Sum>i<length x. y ! i / (sy ! i)\<^sup>2) / (\<Sum>i<length x. 1 / (sy ! i)\<^sup>2),
                  covw)"
proof -
  define a where "a = normal_sum sx sy cxy (length x) 0 0"
  define b where "b = normal_sum sx sy cxy (length x) 0 1"
  define d where "d = normal_sum sx sy cxy (length x) 1 1"
  define p where "p = rhs_sum x y sx sy cxy (length x) 0"
  define q where "q = rhs_sum x y sx sy cxy (length x) 1"
  have reg: "sx ! k \<noteq> 0 \<and> sy ! k \<noteq> 0 \<and> \<bar>cxy ! k\<bar> < 1" if "k < length x" for k
    using assms(6) that by auto
  have N: "0 < length x" using assms(1) by (cases x) simp_all
  have len: "length x \<le> length y" "length x \<le> length sx" "length x \<le> length sy"
    "length x \<le> length cxy"
    using assms(2-5) by simp_all
  note v = weighted_mean_twod_valid [OF N len reg, folded a_def b_def d_def p_def q_def]
  have pr: "prec (sx ! k) (sy ! k) (cxy ! k) = [[1 / (sx ! k)\<^sup>2, 0], [0, 1 / (sy ! k)\<^sup>2]]"
    if "k < length x" for k
    using assms(6) that prec_uncorrelated [of "sx ! k" "sy ! k"] by auto
  have a: "a = (\<Sum>i<length x. 1 / (sx ! i)\<^sup>2)"
    unfolding a_def normal_sum_def by (intro sum.cong) (simp_all add: pr)
  have b: "b = 0"
    unfolding b_def normal_sum_def by (intro sum.neutral) (simp add: pr)
  have d: "d = (\<Sum>i<length x. 1 / (sy ! i)\<^sup>2)"
    unfolding d_def normal_sum_def by (intro sum.cong) (simp_all add: pr)
  have p: "p = (\<Sum>i<length x. x ! i / (sx ! i)\<^sup>2)"
    unfolding p_def rhs_sum_def by (intro sum.cong) (simp_all add: pr)
  have q: "q = (\<Sum>i<length x. y ! i / (sy ! i)\<^sup>2)"
    unfolding q_def rhs_sum_def by (intro sum.cong) (simp_all add: pr)
  have ad: "a \<noteq> 0" "d \<noteq> 0" using v(2,3) by simp_all
  have wx: "d / (a * d - b * b) * p + - b / (a * d - b * b) * q = p / a"
    using ad by (simp add: b)
  have wy: "- b / (a * d - b * b) * p + a / (a * d - b * b) * q = q / d"
    using ad by (simp add: b)
  have "\<exists>covw. weighted_mean_twod x y sx sy cxy = Inr (p / a, q / d, covw)"
    unfolding wx [symmetric] wy [symmetric] by (intro exI) (rule v(1))
  then show ?thesis unfolding a d p q .
qed

theorem weighted_mean_twod_uncorrelated_witness:
  "weighted_mean_twod [1, 4] [2, 7] [1, 2] [3, 1] [0, 0]
   = Inr (8 / 5, 13 / 2, Array2 2 2 [[4 / 5, 0], [0, 9 / 10]])"
proof -
  have run: "weighted_mean_twod [1, 4] [2, 7] [1, 2] [3, 1] [0, 0]
             = Inr (8 / 5, 13 / 2, Array2 2 2 [[4 / 5, 0], [0, 9 / 10]])"
    by code_simp
  have "\<forall>i<length [1, 4 :: real]. [0, 0 :: real] ! i = 0 \<and> 0 < [1, 2 :: real] ! i \<and> 0 < [3, 1 :: real] ! i"
    by (simp add: less_Suc_eq nth_Cons')
  from weighted_mean_twod_uncorrelated [of "[1, 4]" "[2, 7]" "[1, 2]" "[3, 1]" "[0, 0]", OF _ _ _ _ _ this]
  show ?thesis unfolding run by simp
qed

subsection \<open>A single point\<close>

text \<open>
  C3. For one point with positive uncertainties and a correlation strictly between
  -1 and 1, the weighted mean is the point and \<open>covw\<close> is its covariance matrix.
\<close>

theorem weighted_mean_twod_single_point:
  assumes "length x = 1" "length y = 1" "length sx = 1" "length sy = 1" "length cxy = 1"
    and "0 < sx ! 0" "0 < sy ! 0" "\<bar>cxy ! 0\<bar> < 1"
  shows "weighted_mean_twod x y sx sy cxy
         = Inr (x ! 0, y ! 0,
                Array2 2 2 [[(sx ! 0)\<^sup>2, cxy ! 0 * sx ! 0 * sy ! 0],
                            [cxy ! 0 * sx ! 0 * sy ! 0, (sy ! 0)\<^sup>2]])"
proof -
  define s where "s = sx ! 0"
  define t where "t = sy ! 0"
  define c where "c = cxy ! 0"
  define D where "D = pdet s t c"
  define a where "a = normal_sum sx sy cxy (length x) 0 0"
  define b where "b = normal_sum sx sy cxy (length x) 0 1"
  define d where "d = normal_sum sx sy cxy (length x) 1 1"
  define p where "p = rhs_sum x y sx sy cxy (length x) 0"
  define q where "q = rhs_sum x y sx sy cxy (length x) 1"
  have reg: "sx ! k \<noteq> 0 \<and> sy ! k \<noteq> 0 \<and> \<bar>cxy ! k\<bar> < 1" if "k < length x" for k
    using assms that by auto
  have N: "0 < length x" using assms(1) by simp
  have len: "length x \<le> length y" "length x \<le> length sx" "length x \<le> length sy"
    "length x \<le> length cxy"
    using assms(1-5) by simp_all
  note v = weighted_mean_twod_valid [OF N len reg, folded a_def b_def d_def p_def q_def]
  have D: "0 < D" unfolding D_def using assms(6-8) by (intro pdet_pos) (simp_all add: s_def t_def c_def)
  have a: "a = t\<^sup>2 / D" and b: "b = - (s * t * c) / D" and d: "d = s\<^sup>2 / D"
    by (simp_all add: a_def b_def d_def normal_sum_def assms(1) prec_def s_def t_def c_def D_def)
  have p: "p = t\<^sup>2 / D * x ! 0 + - (s * t * c) / D * y ! 0"
    and q: "q = - (s * t * c) / D * x ! 0 + s\<^sup>2 / D * y ! 0"
    by (simp_all add: p_def q_def rhs_sum_def assms(1) prec_def s_def t_def c_def D_def)
  have det: "a * d - b * b = 1 / D"
    using prec_det [of s t c] D
    by (simp add: a b d prec_def D_def)
  have DD: "D = s\<^sup>2 * t\<^sup>2 - (s * t * c) * (s * t * c)" by (simp add: D_def pdet_def)
  have e00: "d / (a * d - b * b) = s\<^sup>2"
  proof -
    have "d / (a * d - b * b) = d / (1 / D)" by (simp only: det)
    also have "\<dots> = s\<^sup>2" using D by (simp add: d)
    finally show ?thesis .
  qed
  have e01: "- b / (a * d - b * b) = c * s * t"
  proof -
    have "- b / (a * d - b * b) = - b / (1 / D)" by (simp only: det)
    also have "\<dots> = c * s * t" using D by (simp add: b)
    finally show ?thesis .
  qed
  have e11: "a / (a * d - b * b) = t\<^sup>2"
  proof -
    have "a / (a * d - b * b) = a / (1 / D)" by (simp only: det)
    also have "\<dots> = t\<^sup>2" using D by (simp add: a)
    finally show ?thesis .
  qed
  have wx: "s\<^sup>2 * p + c * s * t * q = x ! 0"
  proof -
    have "s\<^sup>2 * p + c * s * t * q = (s\<^sup>2 * t\<^sup>2 - (s * t * c) * (s * t * c)) * x ! 0 / D"
      using D by (simp add: p q power2_eq_square field_simps)
    then show ?thesis using D by (simp add: DD [symmetric])
  qed
  have wy: "c * s * t * p + t\<^sup>2 * q = y ! 0"
  proof -
    have "c * s * t * p + t\<^sup>2 * q = (s\<^sup>2 * t\<^sup>2 - (s * t * c) * (s * t * c)) * y ! 0 / D"
      using D by (simp add: p q power2_eq_square field_simps)
    then show ?thesis using D by (simp add: DD [symmetric])
  qed
  show ?thesis
    using v(1) unfolding e00 e01 e11 wx wy unfolding s_def t_def c_def .
qed

theorem weighted_mean_twod_single_point_witness:
  "weighted_mean_twod [3] [5] [2] [1] [1 / 2] = Inr (3, 5, Array2 2 2 [[4, 1], [1, 1]])"
  using weighted_mean_twod_single_point [of "[3]" "[5]" "[2]" "[1]" "[1 / 2]"]
  by simp


section \<open>The per-point formulation computes the same result\<close>

lemma bind_Inr: "bind (Inr v) f = f v"
  by (simp add: bind_def)

lemma bind_Inl: "bind (Inl e) f = Inl e"
  by (simp add: bind_def)

lemma dot_identity_right:
  "dot (Array2 2 2 (prec s t c)) (Array2 2 2 [[1, 0], [0, 1]]) = Inr (Array2 2 2 (prec s t c))"
  by (simp add: dot_def upt2 prec_def)

lemma dot_identity_left:
  "dot (transpose2 (Array2 2 2 [[1, 0], [0, 1]])) (Array2 2 2 (prec s t c))
   = Inr (Array2 2 2 (prec s t c))"
  by (simp add: dot_def transpose2_def upt2 prec_def)

lemma dot_vec_prec:
  "dot_vec (Array2 2 2 (prec s t c)) [u, w]
   = Inr [prec s t c ! 0 ! 0 * u + prec s t c ! 0 ! 1 * w,
          prec s t c ! 1 ! 0 * u + prec s t c ! 1 ! 1 * w]"
  by (simp add: dot_vec_def upt2 prec_def)

lemma dot_vec_identity_left:
  "dot_vec (transpose2 (Array2 2 2 [[1, 0], [0, 1]])) [u, w] = Inr [u, w]"
  by (simp add: dot_vec_def transpose2_def upt2)

lemma add2_normal:
  "add2 (normal_matrix sx sy cxy m) (Array2 2 2 (prec (sx ! m) (sy ! m) (cxy ! m)))
   = normal_matrix sx sy cxy (Suc m)"
  by (simp add: add2_def add1_def normal_matrix_def normal_sum_def prec_def)

lemma add1_rhs:
  "add1 [rhs_sum x y sx sy cxy m 0, rhs_sum x y sx sy cxy m 1]
     [prec (sx ! m) (sy ! m) (cxy ! m) ! 0 ! 0 * x ! m + prec (sx ! m) (sy ! m) (cxy ! m) ! 0 ! 1 * y ! m,
      prec (sx ! m) (sy ! m) (cxy ! m) ! 1 ! 0 * x ! m + prec (sx ! m) (sy ! m) (cxy ! m) ! 1 ! 1 * y ! m]
   = [rhs_sum x y sx sy cxy (Suc m) 0, rhs_sum x y sx sy cxy (Suc m) 1]"
  by (simp add: add1_def rhs_sum_def)

lemma block_step_states:
  assumes "m < length x" "m < length y" "m < length sx" "m < length sy" "m < length cxy"
    and "pdet (sx ! m) (sy ! m) (cxy ! m) \<noteq> 0"
  shows "block_step x y sx sy cxy m
           (normal_matrix sx sy cxy m, [rhs_sum x y sx sy cxy m 0, rhs_sum x y sx sy cxy m 1])
         = Inr (normal_matrix sx sy cxy (Suc m),
                [rhs_sum x y sx sy cxy (Suc m) 0, rhs_sum x y sx sy cxy (Suc m) 1])"
proof -
  have inv: "linalg_inv (Array2 2 2 [[(sx ! m)\<^sup>2, sx ! m * sy ! m * cxy ! m],
                 [sx ! m * sy ! m * cxy ! m, (sy ! m)\<^sup>2]])
             = Inr (Array2 2 2 (prec (sx ! m) (sy ! m) (cxy ! m)))"
    using linalg_inv_pcov [OF assms(6)] by (simp add: pcov_def)
  show ?thesis
    unfolding block_step_def getitem_def prod.case Let_def
    using assms(1-5)
    by (simp only: if_True bind_Inr inv dot_identity_right dot_identity_left dot_vec_prec
        dot_vec_identity_left add2_normal add1_rhs)
qed

lemma block_loop_states:
  assumes "\<And>k. k < N \<Longrightarrow> \<not> bad_point y sx sy cxy k" "N \<le> length x" "m \<le> N"
  shows "for_loop (block_step x y sx sy cxy) [m..<N]
           (normal_matrix sx sy cxy m, [rhs_sum x y sx sy cxy m 0, rhs_sum x y sx sy cxy m 1])
         = Inr (normal_matrix sx sy cxy N,
                [rhs_sum x y sx sy cxy N 0, rhs_sum x y sx sy cxy N 1])"
  using assms(3)
proof (induction "N - m" arbitrary: m)
  case 0
  then show ?case by simp
next
  case (Suc n)
  then have m: "m < N" by simp
  then have upt: "[m..<N] = m # [Suc m..<N]" by (simp add: upt_conv_Cons)
  have step: "block_step x y sx sy cxy m
           (normal_matrix sx sy cxy m, [rhs_sum x y sx sy cxy m 0, rhs_sum x y sx sy cxy m 1])
         = Inr (normal_matrix sx sy cxy (Suc m),
                [rhs_sum x y sx sy cxy (Suc m) 0, rhs_sum x y sx sy cxy (Suc m) 1])"
    using assms(1) [OF m] m assms(2) by (intro block_step_states) (auto simp: bad_point_def)
  have "n = N - Suc m" "Suc m \<le> N" using Suc.hyps(2) m by simp_all
  from Suc.hyps(1) [OF this] show ?case
    unfolding upt for_loop.simps step bind_Inr .
qed

lemma weighted_mean_twod_blocks_closed:
  assumes "\<And>k. k < length x \<Longrightarrow> \<not> bad_point y sx sy cxy k"
  shows "weighted_mean_twod_blocks x y sx sy cxy
         = solve_normal (normal_matrix sx sy cxy (length x))
             [rhs_sum x y sx sy cxy (length x) 0, rhs_sum x y sx sy cxy (length x) 1]"
proof -
  have start: "(zeros2 2 2, zeros1 2)
               = (normal_matrix sx sy cxy 0, [rhs_sum x y sx sy cxy 0 0, rhs_sum x y sx sy cxy 0 1])"
    by (simp add: zeros2_def zeros1_def normal_matrix_def normal_sum_def rhs_sum_def numeral_2_eq_2)
  have loop: "for_loop (block_step x y sx sy cxy) [0..<length x]
           (normal_matrix sx sy cxy 0, [rhs_sum x y sx sy cxy 0 0, rhs_sum x y sx sy cxy 0 1])
         = Inr (normal_matrix sx sy cxy (length x),
                [rhs_sum x y sx sy cxy (length x) 0, rhs_sum x y sx sy cxy (length x) 1])"
    using assms by (intro block_loop_states) simp_all
  show ?thesis
    unfolding weighted_mean_twod_blocks_def start loop bind_Inr prod.case solve_normal_def
    by (rule refl)
qed

text \<open>
  C5. For valid inputs the per-point accumulation and the construction with the
  \<open>2N\<close> by \<open>2N\<close> block-diagonal matrix return the same \<open>(wx, wy, covw)\<close>.
\<close>

theorem weighted_mean_twod_blocks_equivalent:
  assumes "1 \<le> length x" "length y = length x" "length sx = length x"
    "length sy = length x" "length cxy = length x"
    and "\<forall>i<length x. 0 < sx ! i \<and> 0 < sy ! i \<and> \<bar>cxy ! i\<bar> < 1"
  shows "weighted_mean_twod_blocks x y sx sy cxy = weighted_mean_twod x y sx sy cxy
         \<and> (\<exists>wx wy covw. weighted_mean_twod x y sx sy cxy = Inr (wx, wy, covw))"
proof -
  have reg: "sx ! k \<noteq> 0 \<and> sy ! k \<noteq> 0 \<and> \<bar>cxy ! k\<bar> < 1" if "k < length x" for k
    using assms(6) that by auto
  have N: "0 < length x" using assms(1) by (cases x) simp_all
  have len: "length x \<le> length y" "length x \<le> length sx" "length x \<le> length sy"
    "length x \<le> length cxy"
    using assms(2-5) by simp_all
  have nb: "\<not> bad_point y sx sy cxy k" if "k < length x" for k
    using len reg that by (rule valid_not_bad)
  have same: "weighted_mean_twod_blocks x y sx sy cxy = weighted_mean_twod x y sx sy cxy"
    by (simp only: weighted_mean_twod_blocks_closed [OF nb] weighted_mean_twod_closed [OF nb])
  have "\<exists>wx wy covw. weighted_mean_twod x y sx sy cxy = Inr (wx, wy, covw)"
    by (intro exI) (rule weighted_mean_twod_valid(1) [OF N len reg])
  with same show ?thesis by (rule conjI)
qed

theorem weighted_mean_twod_blocks_equivalent_witness:
  "weighted_mean_twod_blocks [1, 2] [3, 5] [1, 2] [1, 3] [1 / 2, 0]
     = Inr (254 / 199, 653 / 199, Array2 2 2 [[156 / 199, 72 / 199], [72 / 199, 171 / 199]])"
proof -
  have run: "weighted_mean_twod [1, 2] [3, 5] [1, 2] [1, 3] [1 / 2, 0]
     = Inr (254 / 199, 653 / 199, Array2 2 2 [[156 / 199, 72 / 199], [72 / 199, 171 / 199]])"
    by code_simp
  have "\<forall>i<length [1, 2 :: real]. 0 < [1, 2 :: real] ! i \<and> 0 < [1, 3 :: real] ! i
          \<and> \<bar>[1 / 2, 0 :: real] ! i\<bar> < 1"
    by (simp add: less_Suc_eq nth_Cons')
  from weighted_mean_twod_blocks_equivalent
    [of "[1, 2]" "[3, 5]" "[1, 2]" "[1, 3]" "[1 / 2, 0]", OF _ _ _ _ _ this]
  have "weighted_mean_twod_blocks [1, 2] [3, 5] [1, 2] [1, 3] [1 / 2, 0]
        = weighted_mean_twod [1, 2] [3, 5] [1, 2] [1, 3] [1 / 2, 0]"
    by simp
  then show ?thesis unfolding run .
qed


section \<open>The robust scatter estimate\<close>

lemma slice1_one:
  assumes "i < length s"
  shows "slice1 s i (Suc i) = [s ! i]"
  using assms by (simp add: slice1_def take_Suc hd_drop_conv_nth)

lemma slice1_two:
  assumes "Suc i < length s"
  shows "slice1 s i (Suc (Suc i)) = [s ! i, s ! Suc i]"
proof -
  have "drop i s = s ! i # s ! Suc i # drop (Suc (Suc i)) s"
    using assms by (simp add: Cons_nth_drop_Suc Suc_lessD)
  then show ?thesis by (simp add: slice1_def)
qed

text \<open>
  On a nonempty sorted array the library routine returns the value interpolated
  linearly between the two order statistics around the fractional index.
\<close>

lemma compute_qth_percentile_interp:
  assumes "s \<noteq> []" "0 \<le> per" "per \<le> 100"
  defines "h \<equiv> per / 100 * (real (length s) - 1)"
  shows "compute_qth_percentile s per
         = Inr (Num (s ! nat \<lfloor>h\<rfloor> + (h - real (nat \<lfloor>h\<rfloor>)) * (s ! nat \<lceil>h\<rceil> - s ! nat \<lfloor>h\<rfloor>)))"
proof -
  define i where "i = nat \<lfloor>h\<rfloor>"
  have n: "1 \<le> real (length s)" using assms(1) by (cases s) simp_all
  have h0: "0 \<le> h" unfolding h_def using assms(2) n by simp
  have hn: "h \<le> real (length s) - 1"
  proof -
    have "per / 100 * (real (length s) - 1) \<le> 1 * (real (length s) - 1)"
      using assms(3) n by (intro mult_right_mono) simp_all
    then show ?thesis by (simp add: h_def)
  qed
  have fl: "real i = of_int \<lfloor>h\<rfloor>" unfolding i_def using h0 by simp
  have ih: "real i \<le> h" and hi: "h < real i + 1" unfolding fl by linarith+
  show ?thesis
  proof (cases "real i = h")
    case True
    have "real i < real (length s)" using True hn by linarith
    then have il: "i < length s" by simp
    have "\<lceil>h\<rceil> = int i" using True by (metis ceiling_of_nat)
    then have ce: "nat \<lceil>h\<rceil> = i" by simp
    show ?thesis
      unfolding compute_qth_percentile_def Let_def h_def [symmetric] i_def [symmetric] ce
      using True il assms(2,3) by (simp add: slice1_one)
  next
    case False
    then have lt: "real i < h" using ih by simp
    then have "real i + 1 < real (length s)" using hn by linarith
    then have il: "Suc i < length s" by linarith
    have "\<lceil>h\<rceil> = int i + 1" using lt hi by (intro ceiling_unique) simp_all
    then have ce: "nat \<lceil>h\<rceil> = Suc i" by simp
    have w: "real (i + 1) - h + (h - real i) = 1" by simp
    have v: "s ! i * (real (i + 1) - h) + s ! Suc i * (h - real i)
             = s ! i + (h - real i) * (s ! Suc i - s ! i)"
      by (simp add: algebra_simps)
    show ?thesis
      unfolding compute_qth_percentile_def Let_def h_def [symmetric] i_def [symmetric] ce
      using False il assms(2,3) by (simp add: slice1_two algebra_simps)
  qed
qed

lemma scoreatpercentile_interp:
  assumes "x \<noteq> []" "0 \<le> per" "per \<le> 100"
  shows "scoreatpercentile x per = Inr (Num (percentile_interp x per))"
proof -
  have "sort x \<noteq> []" using assms(1) by (metis length_sort length_0_conv)
  from compute_qth_percentile_interp [OF this assms(2,3)] show ?thesis
    using assms(1) by (simp add: scoreatpercentile_def percentile_interp_def Let_def)
qed

lemma scoreatpercentile_empty: "scoreatpercentile [] per = Inr NaN"
  by (simp add: scoreatpercentile_def)


lemma sqrt2_bounds: "141421356 / 100000000 < sqrt 2" "sqrt 2 < 141421357 / 100000000"
proof -
  show "141421356 / 100000000 < sqrt 2"
    by (rule real_less_rsqrt) (simp add: power2_eq_square)
  show "sqrt 2 < 141421357 / 100000000"
    by (rule real_less_lsqrt) (simp_all add: power2_eq_square)
qed

lemma rse_constant_approx:
  fixes e :: real
  assumes "9061938 / 10000000 \<le> e" "e \<le> 9061939 / 10000000"
  shows "\<bar>1 / (sqrt 2 * 2 * e) - 3901522 / 10000000\<bar> < 2 / 10 ^ 7"
proof -
  define r where "r = sqrt 2"
  have r: "141421356 / 100000000 < r" "r < 141421357 / 100000000"
    unfolding r_def by (rule sqrt2_bounds)+
  have epos: "0 < e" using assms(1) by simp
  have lo: "(141421356 / 100000000) * 2 * (9061938 / 10000000) \<le> r * 2 * e"
    using r(1) assms(1) by (intro mult_mono) simp_all
  have up: "r * 2 * e \<le> (141421357 / 100000000) * 2 * (9061939 / 10000000)"
    using r assms epos by (intro mult_mono) simp_all
  have pos: "0 < r * 2 * e" using r(1) epos by simp
  define c where "c = 1 / (r * 2 * e)"
  have c_lo: "1 / ((141421357 / 100000000) * 2 * (9061939 / 10000000)) \<le> c"
    unfolding c_def using up pos by (intro divide_left_mono) simp_all
  have c_up: "c \<le> 1 / ((141421356 / 100000000) * 2 * (9061938 / 10000000))"
    unfolding c_def using lo pos by (intro divide_left_mono) simp_all
  have n_lo: "3901520 / 10000000 < 1 / ((141421357 / 100000000) * 2 * (9061939 / 10000000 :: real))"
    by simp
  have n_up: "1 / ((141421356 / 100000000) * 2 * (9061938 / 10000000 :: real)) < 3901522 / 10000000"
    by simp
  have "3901520 / 10000000 < c" by (rule less_le_trans [OF n_lo c_lo])
  moreover have "c < 3901522 / 10000000" by (rule le_less_trans [OF c_up n_up])
  ultimately have "3901520 / 10000000 < c \<and> c < 3901522 / 10000000" by (rule conjI)
  then have "\<bar>c - 3901522 / 10000000\<bar> < 2 / 10 ^ 7"
    by (simp add: abs_less_iff)
  then show ?thesis unfolding c_def r_def .
qed

lemma rse_nonempty:
  assumes "x \<noteq> []" "erfinv 0.8 \<noteq> 0"
  shows "rse erfinv x
         = Inr (Num (1 / (sqrt 2 * 2 * erfinv 0.8) * (percentile_interp x 90 - percentile_interp x 10)))"
  using assms
  by (simp add: rse_def rse_constant_def scoreatpercentile_interp bind_Inr np_sub_def)

text \<open>
  C1. For a nonempty array, \<open>rse\<close> returns \<open>C * (P90 - P10)\<close> with \<open>P10\<close> and \<open>P90\<close> the
  percentiles by linear interpolation between order statistics and
  \<open>C = 1 / (sqrt 2 * 2 * erfinv 0.8)\<close>; and when \<open>erfinv 0.8\<close> is 0.9061938 to seven
  digits, \<open>C\<close> is within \<open>2 / 10 ^ 7\<close> of 0.3901522.
\<close>

theorem rse_is_scaled_percentile_range:
  assumes "x \<noteq> []" "0 < erfinv 0.8"
  shows "rse erfinv x
         = Inr (Num (1 / (sqrt 2 * 2 * erfinv 0.8) * (percentile_interp x 90 - percentile_interp x 10)))
       \<and> (9061938 / 10000000 \<le> erfinv 0.8 \<and> erfinv 0.8 \<le> 9061939 / 10000000
          \<longrightarrow> \<bar>1 / (sqrt 2 * 2 * erfinv 0.8) - 3901522 / 10000000\<bar> < 2 / 10 ^ 7)"
  using rse_nonempty [of x erfinv] rse_constant_approx [of "erfinv 0.8"] assms by simp

theorem rse_is_scaled_percentile_range_witness:
  "rse erfinv_example [10, 20, 30, 40, 50, 60, 70, 80, 90, 100]
     = Inr (Num (1 / (sqrt 2 * 2 * (9061938 / 10000000)) * (91 - 19)))
   \<and> \<bar>1 / (sqrt 2 * 2 * (9061938 / 10000000)) - 3901522 / 10000000\<bar> < 2 / 10 ^ 7"
proof -
  have p90: "percentile_interp [10, 20, 30, 40, 50, 60, 70, 80, 90, 100] 90 = 91"
    by code_simp
  have p10: "percentile_interp [10, 20, 30, 40, 50, 60, 70, 80, 90, 100] 10 = 19"
    by code_simp
  show ?thesis
    using rse_is_scaled_percentile_range
      [of "[10, 20, 30, 40, 50, 60, 70, 80, 90, 100]" erfinv_example]
    unfolding p90 p10 by (simp add: erfinv_example_def)
qed

text \<open>
  C7 as the specification states it does not hold: on the empty array the percentile
  routine returns NaN, nothing raises, and \<open>rse\<close> returns NaN.
\<close>

theorem rse_empty_counterexample: "rse erfinv_example [] = Inr NaN"
  by (simp add: rse_def scoreatpercentile_empty bind_Inr np_sub_def rse_constant_def
      erfinv_example_def)

text \<open>
  C7, amended. For the empty array \<open>rse\<close> raises no error: both percentiles are NaN
  and the value returned is NaN, whatever the constant is.
\<close>

theorem rse_empty: "rse erfinv [] = Inr NaN"
proof -
  have "np_mul c NaN = NaN" for c by (cases c) simp_all
  then show ?thesis
    by (simp add: rse_def scoreatpercentile_empty bind_Inr np_sub_def)
qed


subsection \<open>Reordering the input\<close>

lemma scoreatpercentile_mset_cong:
  assumes "mset x' = mset x"
  shows "scoreatpercentile x' per = scoreatpercentile x per"
proof -
  have len: "length x' = length x" using assms by (rule mset_eq_length)
  have "sort x' = sort x"
    using assms by (intro properties_for_sort) simp_all
  then show ?thesis by (simp add: scoreatpercentile_def len)
qed

lemma mset_permuted:
  assumes "bij_betw p {..<length x} {..<length x}"
  shows "mset (map (\<lambda>i. x ! p i) [0..<length x]) = mset x"
proof -
  have inj: "inj_on p {0..<length x}" and img: "p ` {0..<length x} = {0..<length x}"
    using assms by (simp_all add: bij_betw_def lessThan_atLeast0)
  have "mset (map (\<lambda>i. x ! p i) [0..<length x])
        = image_mset ((!) x) (image_mset p (mset_set {0..<length x}))"
    by (simp add: multiset.map_comp comp_def)
  also have "image_mset p (mset_set {0..<length x}) = mset_set {0..<length x}"
    using inj img by (simp add: image_mset_mset_set)
  also have "image_mset ((!) x) (mset_set {0..<length x}) = mset (map ((!) x) [0..<length x])"
    by simp
  also have "\<dots> = mset x" by (simp add: map_nth)
  finally show ?thesis .
qed

text \<open>
  C9. \<open>rse\<close> of the array reordered by a permutation \<open>p\<close> of its indices is \<open>rse\<close> of
  the array (for the empty array both are NaN).
\<close>

theorem rse_permutation_invariant:
  assumes "bij_betw p {..<length x} {..<length x}"
  shows "rse erfinv (map (\<lambda>i. x ! p i) [0..<length x]) = rse erfinv x"
  using scoreatpercentile_mset_cong [OF mset_permuted [OF assms]]
  by (simp add: rse_def)

theorem rse_permutation_invariant_witness:
  "rse erfinv_example [30, 10, 20] = rse erfinv_example [10, 20, 30]"
proof -
  have b: "bij_betw (\<lambda>i. (i + 2) mod 3) {..<length [10, 20, 30 :: real]} {..<length [10, 20, 30 :: real]}"
  proof -
    have s: "{..<length [10, 20, 30 :: real]} = {0, 1, 2 :: nat}" by auto
    have "bij_betw (\<lambda>i. (i + 2) mod 3) {0, 1, 2 :: nat} {0, 1, 2}"
      by (auto simp: bij_betw_def inj_on_def)
    then show ?thesis unfolding s .
  qed
  have m: "map (\<lambda>i. [10, 20, 30 :: real] ! ((i + 2) mod 3)) [0..<length [10, 20, 30 :: real]]
           = [30, 10, 20]"
    by (simp add: upt_conv_Cons)
  from rse_permutation_invariant [OF b, of erfinv_example] show ?thesis
    unfolding m .
qed


section \<open>weighted\_mean\_oned\<close>

lemma foldl_np_add_Num: "foldl np_add (Num a) (map Num xs) = Num (a + sum_list xs)"
  by (induction xs arbitrary: a) (simp_all add: add.assoc)

lemma np_sum_Num: "np_sum (map Num xs) = Num (sum_list xs)"
  by (simp add: np_sum_def foldl_np_add_Num)

lemma unit_weights:
  assumes "\<forall>s\<in>set sx. s \<noteq> 0"
  shows "map2 np_mul (map (np_div (Num 1)) (map Num sx)) (map Num sx)
         = map Num (replicate (length sx) 1)"
  using assms by (induction sx) simp_all

lemma cancelled_weights:
  assumes "length sx = length x" "\<forall>s\<in>set sx. s \<noteq> 0"
  shows "map2 np_mul (map2 np_div (map Num x) (map Num sx)) (map Num sx) = map Num x"
  using assms by (induction x sx rule: list_induct2') simp_all

text \<open>
  C10. For a nonempty \<open>x\<close> and an \<open>sx\<close> of the same length without zeros, the elementwise
  \<open>1 / sx * sx\<close> is 1 and \<open>x / sx * sx\<close> is \<open>x\<close>, so the function returns the plain
  arithmetic mean of \<open>x\<close> and \<open>sqrt (1 / N)\<close>, whatever \<open>sx\<close> holds.
\<close>

theorem weighted_mean_oned_is_plain_mean:
  assumes "x \<noteq> []" "length sx = length x" "\<forall>s\<in>set sx. s \<noteq> 0"
  shows "weighted_mean_oned x sx
         = Inr (Num (sum_list x / real (length x)), Num (sqrt (1 / real (length x))))"
proof -
  have n: "real (length x) \<noteq> 0" "\<not> real (length x) < 0" using assms(1) by simp_all
  have w: "np_binop np_mul (map (np_div (Num 1)) (map Num sx)) (map Num sx)
           = Inr (map Num (replicate (length x) 1))"
    using unit_weights [OF assms(3)] by (simp add: np_binop_def assms(2))
  have q: "np_binop np_div (map Num x) (map Num sx) = Inr (map2 np_div (map Num x) (map Num sx))"
    by (simp add: np_binop_def assms(2))
  have wx: "np_binop np_mul (map2 np_div (map Num x) (map Num sx)) (map Num sx)
            = Inr (map Num x)"
    using cancelled_weights [OF assms(2,3)] by (simp add: np_binop_def assms(2))
  show ?thesis
    unfolding weighted_mean_oned_def Let_def w q wx bind_Inr np_sum_Num
    using n by (simp add: sum_list_replicate)
qed

theorem weighted_mean_oned_is_plain_mean_witness:
  "weighted_mean_oned [1, 2, 6] [1, 2, 4] = Inr (Num 3, Num (sqrt (1 / 3)))"
  using weighted_mean_oned_is_plain_mean [of "[1, 2, 6]" "[1, 2, 4]"]
  by simp

end
